theory Spec2Isabelle
  imports Complex_Main
begin

section \<open>Data model (src/types)\<close>

text \<open>
  A JavaScript \<^verbatim>\<open>number\<close> that carries a length, a duration or an angle is a
  \<^typ>\<open>real\<close>: rounding and NaN are not part of the model. A coordinate array
  \<^verbatim>\<open>[number, number]\<close> is a pair in the order the code uses, longitude first.
  Optional and nullable fields are options. A \<^verbatim>\<open>Date\<close> is its number of
  milliseconds since the epoch.
\<close>

type_synonym lnglat = "real \<times> real"

record LocationPoint =
  latitude :: real
  longitude :: real
  accuracy :: "real option"
  altitude :: "real option"
  altitudeAccuracy :: "real option"
  heading :: "real option"
  speed :: "real option"
  timestamp :: real

record Maneuver =
  maneuver_type :: string
  maneuver_modifier :: "string option"
  maneuver_location :: lnglat

record NavigationStep =
  step_distance :: real
  step_duration :: real
  instruction :: string
  maneuver :: Maneuver

record Geometry =
  coordinates :: "lnglat list"
  geometry_type :: string

record NavigationRoute =
  route_distance :: real
  route_duration :: real
  geometry :: Geometry
  steps :: "NavigationStep list"

datatype NavigationMode = idle | preview | active

record SelectedLocation =
  sel_coordinates :: lnglat
  sel_name :: string

record ActiveNavigationState =
  mode :: NavigationMode
  route :: "NavigationRoute option"
  destination :: "SelectedLocation option"
  origin :: "lnglat option"
  currentStepIndex :: nat
  distanceToNextManeuver :: real
  isOffRoute :: bool
  isRerouting :: bool
  eta :: "real option"
  remainingDistance :: real
  remainingDuration :: real

section \<open>Geometry kernel (ActiveNavigationView.tsx)\<close>

text \<open>
  \<^verbatim>\<open>Math.atan2(y, x)\<close> on reals, by quadrant. In the haversine formula both of its
  arguments are square roots. For latitudes between -90 and 90 degrees the quantity
  \<open>a\<close> lies between 0 and 1 and the roots exist; outside that range JavaScript may
  return NaN, which the reals do not have.
\<close>

definition atan2 :: "real \<Rightarrow> real \<Rightarrow> real" where
  "atan2 y x =
     (if 0 < x then arctan (y / x)
      else if x < 0 then (if 0 \<le> y then arctan (y / x) + pi else arctan (y / x) - pi)
      else if 0 < y then pi / 2
      else if y < 0 then - (pi / 2)
      else 0)"

definition calculateDistanceBetweenPoints :: "lnglat \<Rightarrow> lnglat \<Rightarrow> real" where
  "calculateDistanceBetweenPoints point1 point2 =
     (let R = 6371000;
          lat1 = (snd point1 * pi) / 180;
          lat2 = (snd point2 * pi) / 180;
          deltaLat = ((snd point2 - snd point1) * pi) / 180;
          deltaLon = ((fst point2 - fst point1) * pi) / 180;
          a = sin (deltaLat / 2) * sin (deltaLat / 2) +
              cos lat1 * cos lat2 * sin (deltaLon / 2) * sin (deltaLon / 2);
          c = 2 * atan2 (sqrt a) (sqrt (1 - a))
      in R * c)"

text \<open>
  \<^verbatim>\<open>distanceToRouteSegment\<close> returns a number that may be \<^verbatim>\<open>Infinity\<close>;
  \<open>mathMin\<close> is \<^verbatim>\<open>Math.min\<close> and \<open>gt\<close> is the comparison \<^verbatim>\<open>>\<close> of such a number
  with a finite threshold.
\<close>

datatype jsdist = Finite real | Infinity

fun mathMin :: "jsdist \<Rightarrow> jsdist \<Rightarrow> jsdist" where
  "mathMin Infinity d = d"
| "mathMin d Infinity = d"
| "mathMin (Finite x) (Finite y) = Finite (min x y)"

fun gt :: "jsdist \<Rightarrow> real \<Rightarrow> bool" where
  "gt Infinity t = True"
| "gt (Finite x) t = (t < x)"

text \<open>
  The loop \<^verbatim>\<open>for (i = 0; i < routeCoordinates.length - 1; i++)\<close>: each round
  reads the vertices \<open>i\<close> and \<open>i + 1\<close> and folds both distances into
  \<open>minDistance\<close>.
\<close>

fun segmentLoop :: "lnglat \<Rightarrow> lnglat list \<Rightarrow> jsdist \<Rightarrow> jsdist" where
  "segmentLoop point (segmentStart # segmentEnd # rest) minDistance =
     segmentLoop point (segmentEnd # rest)
       (mathMin minDistance
          (mathMin (Finite (calculateDistanceBetweenPoints point segmentStart))
                   (Finite (calculateDistanceBetweenPoints point segmentEnd))))"
| "segmentLoop point [v] minDistance = minDistance"
| "segmentLoop point [] minDistance = minDistance"

definition distanceToRouteSegment :: "lnglat \<Rightarrow> lnglat list \<Rightarrow> jsdist" where
  "distanceToRouteSegment point routeCoordinates =
     (if length routeCoordinates < 2 then Infinity
      else segmentLoop point routeCoordinates Infinity)"

section \<open>Navigation context (NavigationContext.tsx)\<close>

text \<open>
  The provider holds four pieces of React state. Every action below is the function that
  the provider applies to them; an action that calls \<^verbatim>\<open>setNavigationState\<close> with
  an updater is that updater applied to the state it finds. The clock read by
  \<^verbatim>\<open>new Date()\<close> is the argument \<open>now\<close>, in milliseconds.
\<close>

record Provider =
  isNavigationActive :: bool
  showSearch :: bool
  selectedLocation :: "SelectedLocation option"
  navigationState :: ActiveNavigationState

definition initialNavigationState :: ActiveNavigationState where
  "initialNavigationState =
     \<lparr>mode = idle, route = None, destination = None, origin = None,
      currentStepIndex = 0, distanceToNextManeuver = 0,
      isOffRoute = False, isRerouting = False, eta = None,
      remainingDistance = 0, remainingDuration = 0\<rparr>"

definition initialProvider :: Provider where
  "initialProvider =
     \<lparr>isNavigationActive = False, showSearch = False, selectedLocation = None,
      navigationState = initialNavigationState\<rparr>"

definition calculateETA :: "real \<Rightarrow> real \<Rightarrow> real" where
  "calculateETA now remainingDuration' = now + remainingDuration' * 1000"

text \<open>\<^verbatim>\<open>route.steps[i]?.distance || 0\<close>\<close>

definition stepDistanceOr0 :: "NavigationStep list \<Rightarrow> nat \<Rightarrow> real" where
  "stepDistanceOr0 ss i = (if i < length ss then step_distance (ss ! i) else 0)"

definition setPreviewRoute ::
  "real \<Rightarrow> NavigationRoute \<Rightarrow> SelectedLocation \<Rightarrow> lnglat \<Rightarrow> Provider \<Rightarrow> Provider" where
  "setPreviewRoute now r dest orig p =
     p\<lparr>navigationState :=
         \<lparr>mode = preview, route = Some r, destination = Some dest, origin = Some orig,
          currentStepIndex = 0, distanceToNextManeuver = stepDistanceOr0 (steps r) 0,
          isOffRoute = False, isRerouting = False,
          eta = Some (calculateETA now (route_duration r)),
          remainingDistance = route_distance r,
          remainingDuration = route_duration r\<rparr>\<rparr>"

text \<open>
  \<^verbatim>\<open>startActiveNavigation\<close> is a callback with the dependency
  \<^verbatim>\<open>navigationState.route\<close>: its guard reads the route of the navigation state of
  the render that built the callback, \<open>renderedRoute\<close>, while its updater
  \<^verbatim>\<open>prev => ({...prev, mode: 'active'})\<close> applies to the state it finds, \<open>p\<close>.
  It has this one guard and no other branch: it returns normally on every path.
\<close>

definition startActiveNavigation :: "NavigationRoute option \<Rightarrow> Provider \<Rightarrow> Provider" where
  "startActiveNavigation renderedRoute p =
     (if renderedRoute \<noteq> None
      then p\<lparr>navigationState := (navigationState p)\<lparr>mode := active\<rparr>,
             isNavigationActive := True,
             selectedLocation := None\<rparr>
      else p)"

text \<open>
  The call made first in a handler of the render that shows \<open>p\<close>: the rendered route is
  the route of \<open>p\<close> itself.
\<close>

definition startRendered :: "Provider \<Rightarrow> Provider" where
  "startRendered p = startActiveNavigation (route (navigationState p)) p"

text \<open>
  \<^verbatim>\<open>handleStart\<close> of the selected-location panel (SelectedLocationPanel.tsx), the
  only caller of both actions: it calls \<^verbatim>\<open>setPreviewRoute\<close> and then
  \<^verbatim>\<open>startActiveNavigation\<close> in one handler, so the guard of the second call still
  reads the route that was rendered before the first.
\<close>

definition handleStart ::
  "real \<Rightarrow> NavigationRoute \<Rightarrow> SelectedLocation \<Rightarrow> lnglat \<Rightarrow> Provider \<Rightarrow> Provider" where
  "handleStart now r dest orig p =
     startActiveNavigation (route (navigationState p)) (setPreviewRoute now r dest orig p)"

text \<open>
  The summation loop of \<^verbatim>\<open>updateNavigationProgress\<close>, run over the steps from
  \<open>currentStepIndex\<close> on; the accumulator is the pair
  (\<open>remainingDistance\<close>, \<open>remainingDuration\<close>).
\<close>

fun remainingLoop :: "NavigationStep list \<Rightarrow> real \<times> real \<Rightarrow> real \<times> real" where
  "remainingLoop [] acc = acc"
| "remainingLoop (s # ss) (d, t) = remainingLoop ss (d + step_distance s, t + step_duration s)"

definition updateNavigationProgress ::
  "real \<Rightarrow> lnglat \<Rightarrow> real \<Rightarrow> nat \<Rightarrow> Provider \<Rightarrow> Provider" where
  "updateNavigationProgress now currentLocation distanceToNextManeuver' currentStepIndex' p =
     (let prev = navigationState p in
      case route prev of
        None \<Rightarrow> p
      | Some r \<Rightarrow>
          (let (sumDistance, sumDuration) =
                 remainingLoop (drop currentStepIndex' (steps r)) (0, 0);
               currentStepDistance = stepDistanceOr0 (steps r) currentStepIndex';
               remainingDistance' = sumDistance - currentStepDistance + distanceToNextManeuver'
           in p\<lparr>navigationState := prev
                  \<lparr>currentStepIndex := currentStepIndex',
                   distanceToNextManeuver := distanceToNextManeuver',
                   remainingDistance := max 0 remainingDistance',
                   remainingDuration := max 0 sumDuration,
                   eta := Some (calculateETA now sumDuration),
                   origin := Some currentLocation\<rparr>\<rparr>))"

definition setOffRoute :: "bool \<Rightarrow> Provider \<Rightarrow> Provider" where
  "setOffRoute isOffRoute' p =
     p\<lparr>navigationState := (navigationState p)\<lparr>isOffRoute := isOffRoute'\<rparr>\<rparr>"

definition setRerouting :: "bool \<Rightarrow> Provider \<Rightarrow> Provider" where
  "setRerouting isRerouting' p =
     (let prev = navigationState p in
      p\<lparr>navigationState := prev
          \<lparr>isRerouting := isRerouting',
           isOffRoute := (if isRerouting' then isOffRoute prev else False)\<rparr>\<rparr>)"

definition updateRoute :: "real \<Rightarrow> NavigationRoute \<Rightarrow> Provider \<Rightarrow> Provider" where
  "updateRoute now r p =
     p\<lparr>navigationState := (navigationState p)
         \<lparr>route := Some r,
          currentStepIndex := 0,
          distanceToNextManeuver := stepDistanceOr0 (steps r) 0,
          isOffRoute := False,
          isRerouting := False,
          remainingDistance := route_distance r,
          remainingDuration := route_duration r,
          eta := Some (calculateETA now (route_duration r))\<rparr>\<rparr>"

definition endNavigation :: "Provider \<Rightarrow> Provider" where
  "endNavigation p =
     p\<lparr>navigationState := initialNavigationState,
       isNavigationActive := False,
       selectedLocation := None\<rparr>"

definition clearNavigation :: "Provider \<Rightarrow> Provider" where
  "clearNavigation p =
     p\<lparr>navigationState := initialNavigationState,
       isNavigationActive := False,
       selectedLocation := None\<rparr>"

section \<open>Position samples (ActiveNavigationView.tsx)\<close>

text \<open>
  \<^verbatim>\<open>processLocationUpdate\<close> reads \<open>route\<close>, \<open>currentStepIndex\<close>,
  \<open>destination\<close> and \<open>isOffRoute\<close> from the navigation state of the render it
  was created in, and then calls the context actions in program order. The camera call
  \<^verbatim>\<open>map.easeTo\<close> belongs to the render sink and is left out.
\<close>

definition STEP_ADVANCE_THRESHOLD :: real where
  "STEP_ADVANCE_THRESHOLD = 30"

definition ARRIVAL_THRESHOLD :: real where
  "ARRIVAL_THRESHOLD = 30"

definition OFF_ROUTE_THRESHOLD :: real where
  "OFF_ROUTE_THRESHOLD = 50"

definition arrived :: "ActiveNavigationState \<Rightarrow> NavigationRoute \<Rightarrow> lnglat \<Rightarrow> bool" where
  "arrived ns r currentPoint =
     (case destination ns of
        None \<Rightarrow> False
      | Some dest \<Rightarrow>
          length (steps r) - 1 \<le> currentStepIndex ns \<and>
          calculateDistanceBetweenPoints currentPoint (sel_coordinates dest) < ARRIVAL_THRESHOLD)"

definition processLocationUpdate :: "real \<Rightarrow> LocationPoint \<Rightarrow> Provider \<Rightarrow> Provider" where
  "processLocationUpdate now location p =
     (let ns = navigationState p in
      case route ns of
        None \<Rightarrow> p
      | Some r \<Rightarrow>
          if length (steps r) = 0 then p
          else
            (let currentPoint = (longitude location, latitude location) in
             if \<not> currentStepIndex ns < length (steps r) then p
             else
               (let currentStep = steps r ! currentStepIndex ns;
                    distanceToManeuver =
                      calculateDistanceBetweenPoints currentPoint
                        (maneuver_location (maneuver currentStep));
                    newStepIndex =
                      (if distanceToManeuver < STEP_ADVANCE_THRESHOLD \<and>
                          currentStepIndex ns < length (steps r) - 1
                       then currentStepIndex ns + 1 else currentStepIndex ns)
                in if arrived ns r currentPoint then endNavigation p
                   else
                     (let distanceToRoute =
                            distanceToRouteSegment currentPoint (coordinates (geometry r));
                          isCurrentlyOffRoute = gt distanceToRoute OFF_ROUTE_THRESHOLD;
                          p1 = (if isCurrentlyOffRoute \<noteq> isOffRoute ns
                                then setOffRoute isCurrentlyOffRoute p else p);
                          newDistanceToManeuver =
                            (if newStepIndex = currentStepIndex ns then distanceToManeuver
                             else stepDistanceOr0 (steps r) newStepIndex)
                      in updateNavigationProgress now currentPoint newDistanceToManeuver
                           newStepIndex p1))))"

text \<open>
  The refs of one mounted \<^verbatim>\<open>ActiveNavigationView\<close>. A pending timer remembers the
  clock at which \<^verbatim>\<open>setTimeout\<close> was called and what its callback closes over:
  \<open>currentLocation\<close> and, through \<^verbatim>\<open>handleReroute\<close>, \<open>destination\<close>.
  \<open>rerouteTimeoutRef\<close> is \<open>None\<close> when no timer is pending.
\<close>

record Timer =
  armedAt :: nat
  timerLocation :: LocationPoint
  timerDestination :: "SelectedLocation option"

record ViewInstance =
  instanceId :: nat
  lastProcessedLocationRef :: "LocationPoint option"
  rerouteTimeoutRef :: "Timer option"
  isReroutingRef :: bool

text \<open>The guard of the effect that watches \<open>currentLocation\<close>.\<close>

definition sameSample :: "LocationPoint option \<Rightarrow> LocationPoint \<Rightarrow> bool" where
  "sameSample lastProcessed currentLocation =
     (case lastProcessed of
        None \<Rightarrow> False
      | Some l \<Rightarrow>
          timestamp l = timestamp currentLocation \<and>
          latitude l = latitude currentLocation \<and>
          longitude l = longitude currentLocation)"

definition watchEffect ::
  "real \<Rightarrow> LocationPoint option \<Rightarrow> ViewInstance \<times> Provider \<Rightarrow> ViewInstance \<times> Provider" where
  "watchEffect now currentLocation vp =
     (case currentLocation of
        None \<Rightarrow> vp
      | Some loc \<Rightarrow>
          if sameSample (lastProcessedLocationRef (fst vp)) loc then vp
          else ((fst vp)\<lparr>lastProcessedLocationRef := Some loc\<rparr>,
                processLocationUpdate now loc (snd vp)))"

section \<open>Concrete routes and samples\<close>

definition mkStep :: "real \<Rightarrow> real \<Rightarrow> lnglat \<Rightarrow> NavigationStep" where
  "mkStep d t loc =
     \<lparr>step_distance = d, step_duration = t, instruction = ''Continue'',
      maneuver = \<lparr>maneuver_type = ''turn'', maneuver_modifier = None,
                  maneuver_location = loc\<rparr>\<rparr>"

definition mkRoute :: "real \<Rightarrow> real \<Rightarrow> lnglat list \<Rightarrow> NavigationStep list \<Rightarrow> NavigationRoute" where
  "mkRoute d t line ss =
     \<lparr>route_distance = d, route_duration = t,
      geometry = \<lparr>coordinates = line, geometry_type = ''LineString''\<rparr>,
      steps = ss\<rparr>"

definition mkSample :: "lnglat \<Rightarrow> real \<Rightarrow> LocationPoint" where
  "mkSample c t =
     \<lparr>latitude = snd c, longitude = fst c, accuracy = None, altitude = None,
      altitudeAccuracy = None, heading = None, speed = None, timestamp = t\<rparr>"

definition mkDestination :: "lnglat \<Rightarrow> SelectedLocation" where
  "mkDestination c = \<lparr>sel_coordinates = c, sel_name = ''Destination''\<rparr>"

text \<open>
  The two-step route of the specification's scenario. The specification writes its
  coordinates as two numbers; \<open>f\<close> turns such a pair into the code's array, so that
  both readings of the pair (longitude first, or latitude first) are covered. The
  scenario gives the route no polyline: \<open>line\<close> is any. \<open>scenarioStart\<close> is the
  scenario's two calls; \<open>renderedRoute\<close> is the route of the render whose
  \<^verbatim>\<open>startActiveNavigation\<close> is called.
\<close>

definition scenarioRoute :: "(real \<times> real \<Rightarrow> lnglat) \<Rightarrow> lnglat list \<Rightarrow> NavigationRoute" where
  "scenarioRoute f line =
     mkRoute 1000 120 line [mkStep 400 40 (f (0, 0.004)), mkStep 600 80 (f (0, 0.01))]"

definition scenarioStart ::
  "NavigationRoute option \<Rightarrow> (real \<times> real \<Rightarrow> lnglat) \<Rightarrow> lnglat list \<Rightarrow> real \<Rightarrow> Provider" where
  "scenarioStart renderedRoute f line now =
     startActiveNavigation renderedRoute
       (setPreviewRoute now (scenarioRoute f line) (mkDestination (f (0, 0.01))) (f (0, 0))
          initialProvider)"

text \<open>
  A route along the meridian of longitude 0 whose last turn lies 0.0001 degrees of latitude
  (about 11 m) before the destination, and a navigation in progress on its first step.
\<close>

definition shortRoute :: NavigationRoute where
  "shortRoute =
     mkRoute 1000 120 [(0, 0), (0, 0.0099), (0, 0.01)]
       [mkStep 989 110 (0, 0.0099), mkStep 11 10 (0, 0.01)]"

definition shortNavigation :: Provider where
  "shortNavigation =
     startRendered
       (setPreviewRoute 0 shortRoute (mkDestination (0, 0.01)) (0, 0) initialProvider)"

text \<open>
  A navigation on \<open>shortRoute\<close> that has left the route and has a reroute request
  under way: the state the context is in while \<^verbatim>\<open>handleReroute\<close> awaits.
\<close>

definition reroutingState :: Provider where
  "reroutingState =
     setRerouting True (setOffRoute True
       (startRendered
          (setPreviewRoute 0 shortRoute (mkDestination (0, 0.01)) (0, 0) initialProvider)))"

text \<open>
  The navigation on \<open>shortRoute\<close> after a sample taken at the destination itself, and the
  specification's scenario after its sample at \<open>(0, 0.0039)\<close>.
\<close>

definition lastStepNavigation :: Provider where
  "lastStepNavigation = processLocationUpdate 0 (mkSample (0, 0.01) 1) shortNavigation"

definition scenarioSample :: "(real \<times> real \<Rightarrow> lnglat) \<Rightarrow> real \<Rightarrow> LocationPoint" where
  "scenarioSample f t = mkSample (f (0, 0.0039)) t"

text \<open>The refs of a view that has just been mounted (\<^verbatim>\<open>useRef(null)\<close>, \<^verbatim>\<open>useRef(false)\<close>).\<close>

definition freshView :: "nat \<Rightarrow> ViewInstance" where
  "freshView n =
     \<lparr>instanceId = n, lastProcessedLocationRef = None, rerouteTimeoutRef = None,
      isReroutingRef = False\<rparr>"

text \<open>A mounted view whose last processed sample was taken at time 10.\<close>

definition staleView :: ViewInstance where
  "staleView = (freshView 1)\<lparr>lastProcessedLocationRef := Some (mkSample (0, 0) 10)\<rparr>"

section \<open>The reroute coordinator (ActiveNavigationView.tsx)\<close>

text \<open>
  The debounce effect, with dependencies \<open>isOffRoute\<close>, \<open>isRerouting\<close>,
  \<open>currentLocation\<close> and \<^verbatim>\<open>handleReroute\<close> (which changes with \<open>destination\<close>).
  Each run first clears the pending timer and then, when the view is off route, not
  rerouting and has a location, arms a new one at the current clock \<open>clk\<close>. Its cleanup
  clears the timer as well.
\<close>

definition debounceEffect ::
  "nat \<Rightarrow> ActiveNavigationState \<Rightarrow> LocationPoint option \<Rightarrow> ViewInstance \<Rightarrow> ViewInstance" where
  "debounceEffect clk ns currentLocation v =
     (let v1 = v\<lparr>rerouteTimeoutRef := None\<rparr> in
      if isOffRoute ns \<and> \<not> isRerouting ns then
        (case currentLocation of
           None \<Rightarrow> v1
         | Some loc \<Rightarrow>
             v1\<lparr>rerouteTimeoutRef :=
                  Some \<lparr>armedAt = clk, timerLocation = loc, timerDestination = destination ns\<rparr>\<rparr>)
      else v1)"

definition REROUTE_DELAY :: nat where
  "REROUTE_DELAY = 3000"

text \<open>
  \<^verbatim>\<open>handleReroute\<close> is asynchronous: it runs up to
  \<^verbatim>\<open>await calculateRoute(...)\<close>, and resumes when the promise settles.
  \<open>handleRerouteStart\<close> is the first part; it returns the refs and the provider state it
  leaves and, when it reaches the \<^verbatim>\<open>await\<close>, the request (origin, destination) it
  has made. When \<^verbatim>\<open>getMapboxToken()\<close> is empty the function returns before the
  request, through its \<^verbatim>\<open>finally\<close> block. \<open>handleRerouteResume\<close> is the second part,
  on the provider; the \<^verbatim>\<open>finally\<close> block also resets \<open>isReroutingRef\<close> of the
  instance that made the request.
\<close>

datatype RouteResult = Resolved "NavigationRoute option" | Rejected

definition handleRerouteStart ::
  "string \<Rightarrow> SelectedLocation option \<Rightarrow> lnglat \<Rightarrow> ViewInstance \<times> Provider \<Rightarrow>
     (ViewInstance \<times> Provider) \<times> (lnglat \<times> lnglat) option" where
  "handleRerouteStart tok dest currentPoint vp =
     (case dest of
        None \<Rightarrow> (vp, None)
      | Some d \<Rightarrow>
          if isReroutingRef (fst vp) then (vp, None)
          else
            (let v1 = (fst vp)\<lparr>isReroutingRef := True\<rparr>;
                 p1 = setRerouting True (snd vp)
             in if tok = []
                then ((v1\<lparr>isReroutingRef := False\<rparr>, setRerouting False (setRerouting False p1)),
                      None)
                else ((v1, p1), Some (currentPoint, sel_coordinates d))))"

definition handleRerouteResume :: "real \<Rightarrow> RouteResult \<Rightarrow> Provider \<Rightarrow> Provider" where
  "handleRerouteResume now res p =
     setRerouting False
       (case res of
          Resolved (Some newRoute) \<Rightarrow> updateRoute now newRoute p
        | Resolved None \<Rightarrow> p
        | Rejected \<Rightarrow> p)"

section \<open>The page around the view: events, renders and timers\<close>

text \<open>
  The world is the provider state, the position the page passes to the view as
  \<open>currentLocation\<close>, the mounted view if there is one (the page renders
  \<^verbatim>\<open>ActiveNavigationView\<close> exactly when the mode is active), the number of views
  mounted so far, the requests to \<^verbatim>\<open>calculateRoute\<close> that have not settled yet (each
  with the number of the view instance that awaits it), the log of all requests made, the
  clock in milliseconds and the Mapbox token.

  Each event is handled to completion: the handler runs, the page renders again, and the
  effects whose dependencies have changed run in the order of their declaration.
\<close>

record World =
  provider :: Provider
  position :: "LocationPoint option"
  view :: "ViewInstance option"
  mounts :: nat
  inflight :: "nat list"
  calls :: "(lnglat \<times> lnglat) list"
  clock :: nat
  token :: string

definition initWorld :: "string \<Rightarrow> World" where
  "initWorld tok =
     \<lparr>provider = initialProvider, position = None, view = None, mounts = 0, inflight = [],
      calls = [], clock = 0, token = tok\<rparr>"

datatype Event =
    Tick nat
  | Position LocationPoint
  | TimerFire
  | Response nat RouteResult
  | SetPreviewRoute NavigationRoute SelectedLocation lnglat
  | StartActive
  | End

text \<open>
  The events: time passes; the location collaborator delivers a new position object; the
  pending timer fires (only once it is due, 3000 ms after it was armed); the \<open>i\<close>-th
  outstanding request settles, with a route, with \<^verbatim>\<open>null\<close> or by rejection; a
  route is stored in preview mode and rendered, which is all that a first press of Start
  does; the navigation is started from the rendered state, which is what the next press
  does once it has stored the route again; the traveller presses the End button of the
  view. Effect dependencies that React compares by
  identity are compared by value here.
\<close>

text \<open>
  A render of the mounted view after the navigation state has changed from \<open>old\<close>, with
  the same \<open>currentLocation\<close>. The view is unmounted, and its timer cleared, when the
  mode is no longer active. Otherwise the debounce effect runs again if one of its
  dependencies differs, and then the location effect if \<^verbatim>\<open>processLocationUpdate\<close> was
  rebuilt (\<open>route\<close>, \<open>currentStepIndex\<close>, \<open>destination\<close> or \<open>isOffRoute\<close> differs).
\<close>

definition effectsAfter :: "ActiveNavigationState \<Rightarrow> World \<Rightarrow> World" where
  "effectsAfter old w =
     (case view w of
        None \<Rightarrow> w
      | Some v \<Rightarrow>
          (let ns = navigationState (provider w) in
           if mode ns \<noteq> active then w\<lparr>view := None\<rparr>
           else
             (let v1 = (if isOffRoute ns \<noteq> isOffRoute old \<or> isRerouting ns \<noteq> isRerouting old \<or>
                           destination ns \<noteq> destination old
                        then debounceEffect (clock w) ns (position w) v else v);
                  vp = (if route ns \<noteq> route old \<or> currentStepIndex ns \<noteq> currentStepIndex old \<or>
                           destination ns \<noteq> destination old \<or> isOffRoute ns \<noteq> isOffRoute old
                        then watchEffect (real (clock w)) (position w) (v1, provider w)
                        else (v1, provider w))
              in w\<lparr>view := Some (fst vp), provider := snd vp\<rparr>)))"

text \<open>Mounting a new view: fresh refs, then every effect once, in order.\<close>

definition mount :: "World \<Rightarrow> World" where
  "mount w =
     (let n = mounts w + 1;
          v1 = debounceEffect (clock w) (navigationState (provider w)) (position w) (freshView n);
          vp = watchEffect (real (clock w)) (position w) (v1, provider w)
      in w\<lparr>view := Some (fst vp), provider := snd vp, mounts := n\<rparr>)"

definition commit :: "ActiveNavigationState \<Rightarrow> World \<Rightarrow> World" where
  "commit old w =
     (case view w of
        None \<Rightarrow>
          if mode (navigationState (provider w)) = active
          then effectsAfter (navigationState (provider w)) (mount w)
          else w
      | Some v \<Rightarrow> effectsAfter old w)"

text \<open>The timer callback of the debounce effect, run when the timer is due.\<close>

definition timerCallback :: "ViewInstance \<Rightarrow> Timer \<Rightarrow> World \<Rightarrow> World" where
  "timerCallback v t w =
     (let started =
            handleRerouteStart (token w) (timerDestination t)
              (longitude (timerLocation t), latitude (timerLocation t))
              (v\<lparr>rerouteTimeoutRef := None\<rparr>, provider w)
      in case snd started of
           None \<Rightarrow> w\<lparr>view := Some (fst (fst started)), provider := snd (fst started)\<rparr>
         | Some request \<Rightarrow>
             w\<lparr>view := Some (fst (fst started)), provider := snd (fst started),
               calls := calls w @ [request],
               inflight := inflight w @ [instanceId v]\<rparr>)"

fun step :: "Event \<Rightarrow> World \<Rightarrow> World" where
  "step (Tick n) w = w\<lparr>clock := clock w + n\<rparr>"
| "step (Position loc) w =
     (case view w of
        None \<Rightarrow> w\<lparr>position := Some loc\<rparr>
      | Some v \<Rightarrow>
          (let old = navigationState (provider w);
               v1 = debounceEffect (clock w) old (Some loc) v;
               vp = watchEffect (real (clock w)) (Some loc) (v1, provider w)
           in effectsAfter old
                (w\<lparr>position := Some loc, view := Some (fst vp), provider := snd vp\<rparr>)))"
| "step TimerFire w =
     (case view w of
        None \<Rightarrow> w
      | Some v \<Rightarrow>
          (case rerouteTimeoutRef v of
             None \<Rightarrow> w
           | Some t \<Rightarrow>
               if clock w < armedAt t + REROUTE_DELAY then w
               else effectsAfter (navigationState (provider w)) (timerCallback v t w)))"
| "step (Response i res) w =
     (if i < length (inflight w)
      then commit (navigationState (provider w))
             (w\<lparr>provider := handleRerouteResume (real (clock w)) res (provider w),
                view := map_option
                  (\<lambda>v. if instanceId v = inflight w ! i then v\<lparr>isReroutingRef := False\<rparr> else v)
                  (view w),
                inflight := take i (inflight w) @ drop (Suc i) (inflight w)\<rparr>)
      else w)"
| "step (SetPreviewRoute r dest orig) w =
     commit (navigationState (provider w))
       (w\<lparr>provider := setPreviewRoute (real (clock w)) r dest orig (provider w)\<rparr>)"
| "step StartActive w =
     commit (navigationState (provider w)) (w\<lparr>provider := startRendered (provider w)\<rparr>)"
| "step End w =
     (case view w of
        None \<Rightarrow> w
      | Some v \<Rightarrow> commit (navigationState (provider w)) (w\<lparr>provider := endNavigation (provider w)\<rparr>))"

definition run :: "Event list \<Rightarrow> World \<Rightarrow> World" where
  "run es w = foldl (\<lambda>w e. step e w) w es"

text \<open>
  What holds of every world the page can be in: a mounted view belongs to an active
  navigation; a pending timer was armed in the past, off route and not rerouting; the
  view has seen the current position; the view is the latest instance; no instance has
  two requests outstanding, and the mounted one has \<open>isReroutingRef\<close> set while its
  request is outstanding.
\<close>

definition viewOk :: "World \<Rightarrow> ViewInstance \<Rightarrow> bool" where
  "viewOk w v =
     (mode (navigationState (provider w)) = active \<and>
      (case rerouteTimeoutRef v of
         None \<Rightarrow> True
       | Some t \<Rightarrow>
           isOffRoute (navigationState (provider w)) \<and>
           \<not> isRerouting (navigationState (provider w)) \<and>
           armedAt t \<le> clock w) \<and>
      (case position w of
         None \<Rightarrow> True
       | Some loc \<Rightarrow> sameSample (lastProcessedLocationRef v) loc) \<and>
      instanceId v = mounts w \<and>
      (instanceId v \<in> set (inflight w) \<longrightarrow> isReroutingRef v))"

definition wellFormed :: "World \<Rightarrow> bool" where
  "wellFormed w =
     ((case view w of None \<Rightarrow> True | Some v \<Rightarrow> viewOk w v) \<and>
      distinct (inflight w) \<and>
      (\<forall>i \<in> set (inflight w). i \<le> mounts w))"

text \<open>
  What a render after a state change relies on: the mounted view \<open>v\<close> is as
  \<open>viewOk\<close> asks, except that its timer is judged against the flags of the state
  \<open>old\<close> that was rendered last.
\<close>

definition viewReady :: "ActiveNavigationState \<Rightarrow> World \<Rightarrow> ViewInstance \<Rightarrow> bool" where
  "viewReady old w v =
     ((case rerouteTimeoutRef v of
         None \<Rightarrow> True
       | Some t \<Rightarrow> isOffRoute old \<and> \<not> isRerouting old \<and> armedAt t \<le> clock w) \<and>
      (case position w of
         None \<Rightarrow> True
       | Some loc \<Rightarrow> sameSample (lastProcessedLocationRef v) loc) \<and>
      instanceId v = mounts w \<and>
      (instanceId v \<in> set (inflight w) \<longrightarrow> isReroutingRef v))"

text \<open>The timer that is pending in a world, and the off-route flag of a world.\<close>

definition pendingTimer :: "World \<Rightarrow> Timer option" where
  "pendingTimer w = (case view w of None \<Rightarrow> None | Some v \<Rightarrow> rerouteTimeoutRef v)"

definition offRoute :: "World \<Rightarrow> bool" where
  "offRoute w = isOffRoute (navigationState (provider w))"

text \<open>
  A session on \<open>shortRoute\<close> begun at clock \<open>now\<close>, and a sample 10 km past the end of
  the route.
\<close>

definition shortDestination :: SelectedLocation where
  "shortDestination = mkDestination (0, 0.01)"

definition shortOrigin :: lnglat where
  "shortOrigin = (0, 0)"

definition shortNavigationAt :: "real \<Rightarrow> Provider" where
  "shortNavigationAt now =
     startRendered
       (setPreviewRoute now shortRoute shortDestination shortOrigin initialProvider)"

definition farSample :: LocationPoint where
  "farSample = mkSample (0, 0.1) 1"

text \<open>
  One session in which the traveller is off route from the start: the position is known,
  the route is previewed and started, three seconds pass and the timer fires. Then the
  session is ended with the request still outstanding, and a second session begins in
  the same way.
\<close>

definition beginSession :: "Event list" where
  "beginSession = [SetPreviewRoute shortRoute shortDestination shortOrigin, StartActive]"

definition firstSession :: "Event list" where
  "firstSession = Position farSample # beginSession @ [Tick 3000, TimerFire]"

text \<open>The refs of view number \<open>n\<close> once it has seen \<open>farSample\<close> and armed its timer at \<open>clk\<close>.\<close>

definition offRouteView :: "nat \<Rightarrow> nat \<Rightarrow> ViewInstance" where
  "offRouteView n clk =
     \<lparr>instanceId = n, lastProcessedLocationRef = Some farSample,
      rerouteTimeoutRef = Some \<lparr>armedAt = clk, timerLocation = farSample,
                               timerDestination = Some shortDestination\<rparr>,
      isReroutingRef = False\<rparr>"

definition secondSession :: "Event list" where
  "secondSession = firstSession @ End # beginSession @ [Tick 3000]"

text \<open>The refs of view number \<open>n\<close> while its request is outstanding.\<close>

definition awaitingView :: "nat \<Rightarrow> ViewInstance" where
  "awaitingView n =
     \<lparr>instanceId = n, lastProcessedLocationRef = Some farSample, rerouteTimeoutRef = None,
      isReroutingRef = True\<rparr>"

text \<open>The first session, ended by the traveller while its request is still outstanding.\<close>

definition endedSession :: "Event list" where
  "endedSession = firstSession @ [End]"

text \<open>
  The page one second into the first session: off route, with the timer that was armed
  at clock 0 still pending.
\<close>

definition armedWorld :: World where
  "armedWorld = step (Tick 1000) (run (Position farSample # beginSession) (initWorld ''pk.token''))"

section \<open>Facts about the geometry kernel\<close>

text \<open>
  Along a meridian, and along the equator, the haversine distance is the arc: the Earth
  radius times the difference of the angles in radians.
\<close>

lemma atan2_sin_cos:
  assumes "0 \<le> y" "y \<le> pi / 2"
  shows "atan2 (sin y) (cos y) = y"
proof (cases "y = pi / 2")
  case True
  show ?thesis unfolding True by (simp add: atan2_def)
next
  case False
  with assms have lt: "y < pi / 2" by simp
  from assms lt have c: "0 < cos y" by (intro cos_gt_zero_pi) auto
  have "arctan (sin y / cos y) = y"
    using arctan_tan [of y] assms lt by (simp add: tan_def)
  with c show ?thesis by (simp add: atan2_def)
qed

lemma haversine_angle:
  assumes "0 \<le> y" "y \<le> pi / 2"
  shows "2 * atan2 (sqrt (sin y * sin y)) (sqrt (1 - sin y * sin y)) = 2 * y"
proof -
  have s: "0 \<le> sin y" using assms by (intro sin_ge_zero) auto
  have c: "0 \<le> cos y" using assms by (intro cos_ge_zero) auto
  have "1 - sin y * sin y = cos y * cos y"
    using sin_cos_squared_add [of y] by (simp add: power2_eq_square algebra_simps)
  then have "sqrt (1 - sin y * sin y) = cos y" using c by simp
  moreover have "sqrt (sin y * sin y) = sin y" using s by simp
  ultimately show ?thesis using atan2_sin_cos [OF assms] by simp
qed

lemma sin_sq_abs: "sin (x / 2) * sin (x / 2) = sin (\<bar>x\<bar> / 2) * sin (\<bar>x\<bar> / 2)" for x :: real
  by (cases "0 \<le> x") (simp_all add: abs_if)

lemma distance_same_longitude:
  assumes "\<bar>lat2 - lat1\<bar> \<le> 180"
  shows "calculateDistanceBetweenPoints (lon, lat1) (lon, lat2) =
         6371000 * (\<bar>lat2 - lat1\<bar> * pi / 180)"
proof -
  define d where "d = (lat2 - lat1) * pi / 180"
  have ad: "\<bar>d\<bar> = \<bar>lat2 - lat1\<bar> * pi / 180"
    by (simp add: d_def abs_mult)
  have "\<bar>lat2 - lat1\<bar> * pi \<le> 180 * pi"
    using assms by (intro mult_right_mono) auto
  then have b: "0 \<le> \<bar>d\<bar> / 2" "\<bar>d\<bar> / 2 \<le> pi / 2"
    using ad by linarith+
  have "calculateDistanceBetweenPoints (lon, lat1) (lon, lat2) =
        6371000 * (2 * atan2 (sqrt (sin (d / 2) * sin (d / 2))) (sqrt (1 - sin (d / 2) * sin (d / 2))))"
    by (simp add: calculateDistanceBetweenPoints_def Let_def d_def)
  also have "\<dots> = 6371000 * (2 * atan2 (sqrt (sin (\<bar>d\<bar> / 2) * sin (\<bar>d\<bar> / 2))) (sqrt (1 - sin (\<bar>d\<bar> / 2) * sin (\<bar>d\<bar> / 2))))"
    using sin_sq_abs [of d] by simp
  also have "\<dots> = 6371000 * (2 * (\<bar>d\<bar> / 2))"
    using haversine_angle [OF b] by simp
  finally show ?thesis using ad by simp
qed

lemma distance_on_equator:
  assumes "\<bar>lon2 - lon1\<bar> \<le> 180"
  shows "calculateDistanceBetweenPoints (lon1, 0) (lon2, 0) =
         6371000 * (\<bar>lon2 - lon1\<bar> * pi / 180)"
proof -
  define d where "d = (lon2 - lon1) * pi / 180"
  have ad: "\<bar>d\<bar> = \<bar>lon2 - lon1\<bar> * pi / 180"
    by (simp add: d_def abs_mult)
  have "\<bar>lon2 - lon1\<bar> * pi \<le> 180 * pi"
    using assms by (intro mult_right_mono) auto
  then have b: "0 \<le> \<bar>d\<bar> / 2" "\<bar>d\<bar> / 2 \<le> pi / 2"
    using ad by linarith+
  have "calculateDistanceBetweenPoints (lon1, 0) (lon2, 0) =
        6371000 * (2 * atan2 (sqrt (sin (d / 2) * sin (d / 2))) (sqrt (1 - sin (d / 2) * sin (d / 2))))"
    by (simp add: calculateDistanceBetweenPoints_def Let_def d_def)
  also have "\<dots> = 6371000 * (2 * atan2 (sqrt (sin (\<bar>d\<bar> / 2) * sin (\<bar>d\<bar> / 2))) (sqrt (1 - sin (\<bar>d\<bar> / 2) * sin (\<bar>d\<bar> / 2))))"
    using sin_sq_abs [of d] by simp
  also have "\<dots> = 6371000 * (2 * (\<bar>d\<bar> / 2))"
    using haversine_angle [OF b] by simp
  finally show ?thesis using ad by simp
qed

section \<open>The narrow setters\<close>

text \<open>
  Counterexample to C6 as stated. In the rerouting state the off-route flag is set;
  \<open>setRerouting False\<close>, the call made when a reroute request has failed, clears it.
\<close>

theorem setRerouting_false_clears_offRoute:
  "isOffRoute (navigationState reroutingState) \<and>
   \<not> isOffRoute (navigationState (setRerouting False reroutingState))"
  by (simp add: reroutingState_def setRerouting_def setOffRoute_def startRendered_def startActiveNavigation_def
      setPreviewRoute_def)

text \<open>
  C6, as amended. \<open>setRerouting b\<close> sets the rerouting flag to \<open>b\<close>; the off-route
  flag keeps its value when \<open>b\<close> is true and becomes false when \<open>b\<close> is false; every
  other field of the navigation state and of the provider is unchanged.
\<close>

theorem setRerouting_frame:
  "isRerouting (navigationState (setRerouting b p)) = b \<and>
   isOffRoute (navigationState (setRerouting b p)) = (b \<and> isOffRoute (navigationState p)) \<and>
   (navigationState (setRerouting b p))\<lparr>isRerouting := x, isOffRoute := y\<rparr> =
     (navigationState p)\<lparr>isRerouting := x, isOffRoute := y\<rparr> \<and>
   (setRerouting b p)\<lparr>navigationState := z\<rparr> = p\<lparr>navigationState := z\<rparr>"
  by (simp add: setRerouting_def Let_def)

text \<open>C6 on the rerouting state, for both values of the flag.\<close>

theorem setRerouting_frame_witness:
  "isRerouting (navigationState (setRerouting False reroutingState)) = False \<and>
   isOffRoute (navigationState (setRerouting True reroutingState)) = True \<and>
   mode (navigationState (setRerouting False reroutingState)) = active"
  using setRerouting_frame [of False reroutingState] setRerouting_frame [of True reroutingState]
  by (simp add: reroutingState_def setRerouting_def setOffRoute_def startRendered_def startActiveNavigation_def
      setPreviewRoute_def)

section \<open>Starting the active navigation\<close>

text \<open>
  What a press of Start does. While no route is rendered, the start call in the handler
  finds its guard false and the press only stores the preview; once a route is rendered,
  a press stores the preview again and starts the navigation from it.
\<close>

lemma handleStart_first:
  "route (navigationState p) = None \<Longrightarrow>
   handleStart now r dest orig p = setPreviewRoute now r dest orig p"
  by (simp add: handleStart_def startActiveNavigation_def)

lemma handleStart_again:
  "route (navigationState p) \<noteq> None \<Longrightarrow>
   handleStart now r dest orig p = startRendered (setPreviewRoute now r dest orig p)"
  by (simp add: handleStart_def startRendered_def startActiveNavigation_def setPreviewRoute_def)

text \<open>
  Counterexample to C8 as stated. With no route set, \<open>startActiveNavigation\<close> returns
  and leaves the provider as it was: nothing is raised and nothing is signalled.
\<close>

theorem startActive_without_route_is_silent:
  "route (navigationState initialProvider) = None \<and>
   startActiveNavigation (route (navigationState initialProvider)) initialProvider =
     initialProvider"
  by (simp add: startActiveNavigation_def initialProvider_def initialNavigationState_def)

text \<open>
  C8, as amended. When no route is set, neither in the rendered state nor in the state
  the call finds, \<open>startActiveNavigation\<close> is a silent no-op. When the rendered state
  has a route, it sets the mode to \<open>active\<close> whatever the mode was, changes no other
  field of the navigation state, raises the legacy flag and closes the selected-location
  panel.
\<close>

theorem startActiveNavigation_cases:
  "(renderedRoute = None \<and> route (navigationState p) = None \<longrightarrow>
      startActiveNavigation renderedRoute p = p) \<and>
   (renderedRoute \<noteq> None \<longrightarrow>
      mode (navigationState (startActiveNavigation renderedRoute p)) = active \<and>
      (navigationState (startActiveNavigation renderedRoute p))\<lparr>mode := m\<rparr> =
        (navigationState p)\<lparr>mode := m\<rparr> \<and>
      isNavigationActive (startActiveNavigation renderedRoute p) \<and>
      selectedLocation (startActiveNavigation renderedRoute p) = None \<and>
      showSearch (startActiveNavigation renderedRoute p) = showSearch p)"
  by (simp add: startActiveNavigation_def)

text \<open>
  Both cases of C8 on concrete states: the rendered preview of \<open>shortRoute\<close>, from which
  the call gives the active \<open>shortNavigation\<close>, and no route at all.
\<close>

theorem startActiveNavigation_cases_witness:
  "route (navigationState
     (setPreviewRoute 0 shortRoute (mkDestination (0, 0.01)) (0, 0) initialProvider)) =
     Some shortRoute \<and>
   mode (navigationState
     (setPreviewRoute 0 shortRoute (mkDestination (0, 0.01)) (0, 0) initialProvider)) = preview \<and>
   mode (navigationState
     (startActiveNavigation (Some shortRoute)
        (setPreviewRoute 0 shortRoute (mkDestination (0, 0.01)) (0, 0) initialProvider))) = active \<and>
   startActiveNavigation None initialProvider = initialProvider"
  using startActiveNavigation_cases
          [of "Some shortRoute"
              "setPreviewRoute 0 shortRoute (mkDestination (0, 0.01)) (0, 0) initialProvider"]
        startActiveNavigation_cases [of None initialProvider]
  by (simp add: setPreviewRoute_def initialProvider_def initialNavigationState_def)

section \<open>Replacing the route\<close>

text \<open>
  C9. For every provider state, clock and new route, \<open>updateRoute\<close> resets the step
  index to 0 and both flags to false, sets the distance to the next maneuver to the first
  step's distance (0 for a route without steps), the remaining distance and duration to the
  route's totals and the ETA to the clock plus the route's duration, and keeps the
  destination, the mode and the origin.
\<close>

theorem updateRoute_resets_progress:
  "currentStepIndex (navigationState (updateRoute now r p)) = 0 \<and>
   \<not> isOffRoute (navigationState (updateRoute now r p)) \<and>
   \<not> isRerouting (navigationState (updateRoute now r p)) \<and>
   (steps r \<noteq> [] \<longrightarrow>
      distanceToNextManeuver (navigationState (updateRoute now r p)) = step_distance (hd (steps r))) \<and>
   (steps r = [] \<longrightarrow> distanceToNextManeuver (navigationState (updateRoute now r p)) = 0) \<and>
   remainingDistance (navigationState (updateRoute now r p)) = route_distance r \<and>
   remainingDuration (navigationState (updateRoute now r p)) = route_duration r \<and>
   eta (navigationState (updateRoute now r p)) = Some (now + route_duration r * 1000) \<and>
   route (navigationState (updateRoute now r p)) = Some r \<and>
   destination (navigationState (updateRoute now r p)) = destination (navigationState p) \<and>
   mode (navigationState (updateRoute now r p)) = mode (navigationState p) \<and>
   origin (navigationState (updateRoute now r p)) = origin (navigationState p)"
  by (simp add: updateRoute_def stepDistanceOr0_def calculateETA_def hd_conv_nth)

text \<open>C9 on the rerouting state, with the 989 m first step of \<open>shortRoute\<close>.\<close>

theorem updateRoute_resets_progress_witness:
  "steps shortRoute \<noteq> [] \<and>
   currentStepIndex (navigationState (updateRoute 5 shortRoute reroutingState)) = 0 \<and>
   \<not> isOffRoute (navigationState (updateRoute 5 shortRoute reroutingState)) \<and>
   distanceToNextManeuver (navigationState (updateRoute 5 shortRoute reroutingState)) = 989 \<and>
   mode (navigationState (updateRoute 5 shortRoute reroutingState)) = active"
  using updateRoute_resets_progress [of 5 shortRoute reroutingState]
  by (simp add: shortRoute_def mkRoute_def mkStep_def reroutingState_def setRerouting_def
      setOffRoute_def startRendered_def startActiveNavigation_def setPreviewRoute_def)

section \<open>Processing one position sample\<close>

lemma updateNavigationProgress_index:
  "route (navigationState p) \<noteq> None \<Longrightarrow>
   currentStepIndex (navigationState (updateNavigationProgress now c d i p)) = i"
  by (auto simp: updateNavigationProgress_def Let_def split: option.splits prod.splits)

lemma updateNavigationProgress_keeps:
  "isOffRoute (navigationState (updateNavigationProgress now c d i p)) = isOffRoute (navigationState p) \<and>
   isRerouting (navigationState (updateNavigationProgress now c d i p)) = isRerouting (navigationState p) \<and>
   mode (navigationState (updateNavigationProgress now c d i p)) = mode (navigationState p) \<and>
   route (navigationState (updateNavigationProgress now c d i p)) = route (navigationState p) \<and>
   destination (navigationState (updateNavigationProgress now c d i p)) = destination (navigationState p)"
  by (auto simp: updateNavigationProgress_def Let_def split: option.splits prod.splits)

lemma setOffRoute_route:
  "route (navigationState (setOffRoute b p)) = route (navigationState p)"
  by (simp add: setOffRoute_def)

lemma processLocationUpdate_index:
  assumes "route (navigationState p) = Some r"
    and "currentStepIndex (navigationState p) < length (steps r)"
  shows "currentStepIndex (navigationState (processLocationUpdate now loc p)) =
     (if arrived (navigationState p) r (longitude loc, latitude loc) then 0
      else if calculateDistanceBetweenPoints (longitude loc, latitude loc)
                (maneuver_location (maneuver (steps r ! currentStepIndex (navigationState p))))
              < STEP_ADVANCE_THRESHOLD \<and>
              currentStepIndex (navigationState p) < length (steps r) - 1
           then currentStepIndex (navigationState p) + 1
           else currentStepIndex (navigationState p))"
  using assms
  by (auto simp: processLocationUpdate_def Let_def updateNavigationProgress_index
      setOffRoute_route endNavigation_def initialNavigationState_def)

lemma processLocationUpdate_index_le:
  "currentStepIndex (navigationState (processLocationUpdate now loc p)) \<le>
   currentStepIndex (navigationState p) + 1"
proof (cases "route (navigationState p)")
  case None
  then show ?thesis by (simp add: processLocationUpdate_def)
next
  case (Some r)
  show ?thesis
  proof (cases "currentStepIndex (navigationState p) < length (steps r)")
    case True
    from processLocationUpdate_index [OF Some True] show ?thesis by simp
  next
    case False
    with Some show ?thesis by (simp add: processLocationUpdate_def Let_def)
  qed
qed

text \<open>
  C5. When a sample is processed on a route whose current step exists, the step index
  grows by exactly 1 if and only if the sample is less than 30 m from the current step's
  maneuver point and the current step is not the last one. Whatever the state and the
  sample, the index never grows by more than 1.
\<close>

theorem step_advance_rule:
  "(route (navigationState p) = Some r \<and> currentStepIndex (navigationState p) < length (steps r) \<longrightarrow>
      (currentStepIndex (navigationState (processLocationUpdate now loc p)) =
         currentStepIndex (navigationState p) + 1
       \<longleftrightarrow>
       calculateDistanceBetweenPoints (longitude loc, latitude loc)
         (maneuver_location (maneuver (steps r ! currentStepIndex (navigationState p)))) < 30 \<and>
       currentStepIndex (navigationState p) < length (steps r) - 1)) \<and>
   currentStepIndex (navigationState (processLocationUpdate now loc p)) \<le>
     currentStepIndex (navigationState p) + 1"
proof -
  have "arrived (navigationState p) r c \<Longrightarrow>
        \<not> currentStepIndex (navigationState p) < length (steps r) - 1" for c
    by (auto simp: arrived_def split: option.splits)
  then show ?thesis
    using processLocationUpdate_index [of p r now loc] processLocationUpdate_index_le [of now loc p]
    by (auto simp: STEP_ADVANCE_THRESHOLD_def)
qed

section \<open>Distance to the polyline and the off-route flag\<close>

lemma segmentLoop_Min:
  "vs \<noteq> [] \<Longrightarrow>
   segmentLoop pt (v # vs) m =
     mathMin m (Finite (Min (calculateDistanceBetweenPoints pt ` set (v # vs))))"
proof (induction vs arbitrary: v m)
  case Nil
  then show ?case by simp
next
  case (Cons w ws)
  show ?case
  proof (cases ws)
    case Nil
    then show ?thesis by (cases m) (simp_all add: min.commute min.left_commute)
  next
    case (Cons u us)
    then have "ws \<noteq> []" by simp
    from Cons.IH [OF this, of w] show ?thesis
      by (cases m) (auto simp: min.assoc min.commute min.left_commute)
  qed
qed

lemma distanceToRouteSegment_short:
  "length cs < 2 \<Longrightarrow> distanceToRouteSegment pt cs = Infinity"
  by (simp add: distanceToRouteSegment_def)

lemma distanceToRouteSegment_Min:
  assumes "2 \<le> length cs"
  shows "distanceToRouteSegment pt cs = Finite (Min (calculateDistanceBetweenPoints pt ` set cs))"
proof -
  from assms obtain v w ws where cs: "cs = v # w # ws"
    by (cases cs; cases "tl cs") auto
  show ?thesis
    using assms segmentLoop_Min [of "w # ws" pt v Infinity]
    unfolding cs distanceToRouteSegment_def by simp
qed

lemma processLocationUpdate_offRoute:
  assumes "route (navigationState p) = Some r"
    and "currentStepIndex (navigationState p) < length (steps r)"
    and "\<not> arrived (navigationState p) r (longitude loc, latitude loc)"
  shows "isOffRoute (navigationState (processLocationUpdate now loc p)) =
         gt (distanceToRouteSegment (longitude loc, latitude loc) (coordinates (geometry r)))
            OFF_ROUTE_THRESHOLD"
  using assms
  by (auto simp: processLocationUpdate_def Let_def updateNavigationProgress_keeps
      setOffRoute_def)


text \<open>
  C10. \<open>distanceToRouteSegment\<close> is infinite on a polyline of fewer than 2 points and
  otherwise the least haversine distance from the point to a vertex. A sample that is
  processed up to the off-route test (the route has the current step, and the sample does
  not end the navigation by arriving) leaves the off-route flag set exactly when that
  distance exceeds 50 m: when the polyline has fewer than 2 points, or every vertex is
  more than 50 m away.
\<close>

theorem distanceToRouteSegment_vertices:
  "(length cs < 2 \<longrightarrow> distanceToRouteSegment pt cs = Infinity) \<and>
   (2 \<le> length cs \<longrightarrow>
      distanceToRouteSegment pt cs = Finite (Min (calculateDistanceBetweenPoints pt ` set cs))) \<and>
   (route (navigationState p) = Some r \<and>
    currentStepIndex (navigationState p) < length (steps r) \<and>
    (\<forall>dest. destination (navigationState p) = Some dest \<longrightarrow>
       \<not> (length (steps r) - 1 \<le> currentStepIndex (navigationState p) \<and>
          calculateDistanceBetweenPoints (longitude loc, latitude loc) (sel_coordinates dest)
            < 30)) \<longrightarrow>
      (isOffRoute (navigationState (processLocationUpdate now loc p)) \<longleftrightarrow>
       length (coordinates (geometry r)) < 2 \<or>
       50 < Min (calculateDistanceBetweenPoints (longitude loc, latitude loc) `
                   set (coordinates (geometry r)))))"
proof (intro conjI impI)
  show "length cs < 2 \<Longrightarrow> distanceToRouteSegment pt cs = Infinity"
    by (rule distanceToRouteSegment_short)
  show "2 \<le> length cs \<Longrightarrow>
        distanceToRouteSegment pt cs = Finite (Min (calculateDistanceBetweenPoints pt ` set cs))"
    by (rule distanceToRouteSegment_Min)
  assume h: "route (navigationState p) = Some r \<and>
    currentStepIndex (navigationState p) < length (steps r) \<and>
    (\<forall>dest. destination (navigationState p) = Some dest \<longrightarrow>
       \<not> (length (steps r) - 1 \<le> currentStepIndex (navigationState p) \<and>
          calculateDistanceBetweenPoints (longitude loc, latitude loc) (sel_coordinates dest)
            < 30))"
  then have na: "\<not> arrived (navigationState p) r (longitude loc, latitude loc)"
    by (auto simp: arrived_def ARRIVAL_THRESHOLD_def split: option.splits)
  let ?cs = "coordinates (geometry r)"
  let ?pt = "(longitude loc, latitude loc)"
  from h na have f: "isOffRoute (navigationState (processLocationUpdate now loc p)) =
      gt (distanceToRouteSegment ?pt ?cs) OFF_ROUTE_THRESHOLD"
    by (intro processLocationUpdate_offRoute) simp_all
  show "isOffRoute (navigationState (processLocationUpdate now loc p)) \<longleftrightarrow>
       length ?cs < 2 \<or> 50 < Min (calculateDistanceBetweenPoints ?pt ` set ?cs)"
  proof (cases "length ?cs < 2")
    case True
    then show ?thesis by (simp add: f distanceToRouteSegment_short)
  next
    case False
    then have "2 \<le> length ?cs" by simp
    from distanceToRouteSegment_Min [OF this, of ?pt] False show ?thesis
      by (simp add: f OFF_ROUTE_THRESHOLD_def)
  qed
qed

lemma shortNavigation_state:
  "navigationState shortNavigation =
     \<lparr>mode = active, route = Some shortRoute, destination = Some (mkDestination (0, 0.01)),
      origin = Some (0, 0), currentStepIndex = 0, distanceToNextManeuver = 989,
      isOffRoute = False, isRerouting = False, eta = Some 120000,
      remainingDistance = 1000, remainingDuration = 120\<rparr>"
  by (simp add: shortNavigation_def startRendered_def startActiveNavigation_def setPreviewRoute_def
      stepDistanceOr0_def calculateETA_def shortRoute_def mkRoute_def mkStep_def)

lemma shortRoute_steps:
  "steps shortRoute = [mkStep 989 110 (0, 0.0099), mkStep 11 10 (0, 0.01)]"
  "coordinates (geometry shortRoute) = [(0, 0), (0, 0.0099), (0, 0.01)]"
  by (simp_all add: shortRoute_def mkRoute_def)

lemma far_sample_distances:
  "50 < calculateDistanceBetweenPoints (0, 0.1) (0, 0)"
  "50 < calculateDistanceBetweenPoints (0, 0.1) (0, 0.0099)"
  "50 < calculateDistanceBetweenPoints (0, 0.1) (0, 0.01)"
  using distance_same_longitude [of 0 "0.1" 0] distance_same_longitude [of "0.0099" "0.1" 0]
    distance_same_longitude [of "0.01" "0.1" 0] pi_ge_two
  by simp_all

text \<open>
  C10 on \<open>shortRoute\<close>. For a sample 10 km past its end, a one-point polyline is
  infinitely far, the three-point polyline is as far as its nearest vertex, which is more
  than 50 m, and the sample raises the off-route flag. A sample at the first turn, 0 m
  from a vertex, clears a flag that was set.
\<close>

theorem distanceToRouteSegment_vertices_witness:
  "distanceToRouteSegment (0, 0.1) [(0, 0)] = Infinity \<and>
   distanceToRouteSegment (0, 0.1) [(0, 0), (0, 0.0099), (0, 0.01)] =
     Finite (Min (calculateDistanceBetweenPoints (0, 0.1) ` {(0, 0), (0, 0.0099), (0, 0.01)})) \<and>
   50 < Min (calculateDistanceBetweenPoints (0, 0.1) ` {(0, 0), (0, 0.0099), (0, 0.01)}) \<and>
   isOffRoute (navigationState (processLocationUpdate 0 (mkSample (0, 0.1) 1) shortNavigation)) \<and>
   isOffRoute (navigationState (setOffRoute True shortNavigation)) \<and>
   \<not> isOffRoute (navigationState
       (processLocationUpdate 0 (mkSample (0, 0.0099) 1) (setOffRoute True shortNavigation)))"
proof -
  have far: "50 < Min (calculateDistanceBetweenPoints (0, 0.1) ` {(0, 0), (0, 0.0099), (0, 0.01)})"
    using far_sample_distances by simp
  have "calculateDistanceBetweenPoints (0, 0.0099) (0, 0.0099) = 0"
    by (simp add: calculateDistanceBetweenPoints_def atan2_def)
  then have near:
    "\<not> 50 < Min (calculateDistanceBetweenPoints (0, 0.0099) ` {(0, 0), (0, 0.0099), (0, 0.01)})"
    by simp
  have s: "navigationState (setOffRoute True shortNavigation) =
           (navigationState shortNavigation)\<lparr>isOffRoute := True\<rparr>"
    by (simp add: setOffRoute_def)
  note v = distanceToRouteSegment_vertices
  from v [of "[(0, 0)]" "(0, 0.1)"]
  have c1: "distanceToRouteSegment (0, 0.1) [(0, 0)] = Infinity" by simp
  from v [of "[(0, 0), (0, 0.0099), (0, 0.01)]" "(0, 0.1)"]
  have c2: "distanceToRouteSegment (0, 0.1) [(0, 0), (0, 0.0099), (0, 0.01)] =
     Finite (Min (calculateDistanceBetweenPoints (0, 0.1) ` {(0, 0), (0, 0.0099), (0, 0.01)}))"
    by simp
  from v [of _ _ shortNavigation shortRoute "mkSample (0, 0.1) 1" 0] far
  have c3: "isOffRoute (navigationState
      (processLocationUpdate 0 (mkSample (0, 0.1) 1) shortNavigation))"
    by (simp add: shortNavigation_state shortRoute_steps mkSample_def)
  from v [of _ _ "setOffRoute True shortNavigation" shortRoute "mkSample (0, 0.0099) 1" 0] near
  have c4: "\<not> isOffRoute (navigationState
      (processLocationUpdate 0 (mkSample (0, 0.0099) 1) (setOffRoute True shortNavigation)))"
    by (simp add: s shortNavigation_state shortRoute_steps mkSample_def)
  from c1 c2 far c3 c4 show ?thesis by (simp add: s)
qed

lemma at_turn_distance:
  "calculateDistanceBetweenPoints (0, 0.0099) (0, 0.0099) < 30"
  using distance_same_longitude [of "0.0099" "0.0099" 0] by simp

text \<open>
  C5 on \<open>shortRoute\<close>: a sample at the first turn advances the index from 0 to 1, a
  sample 10 km away leaves it at 0.
\<close>

theorem step_advance_rule_witness:
  "route (navigationState shortNavigation) = Some shortRoute \<and>
   currentStepIndex (navigationState shortNavigation) = 0 \<and>
   length (steps shortRoute) = 2 \<and>
   currentStepIndex (navigationState
     (processLocationUpdate 0 (mkSample (0, 0.0099) 1) shortNavigation)) = 1 \<and>
   currentStepIndex (navigationState
     (processLocationUpdate 0 (mkSample (0, 0.1) 1) shortNavigation)) = 0"
proof -
  have far: "\<not> calculateDistanceBetweenPoints (0, 0.1) (0, 0.0099) < 30"
    using far_sample_distances(2) by simp
  have le: "currentStepIndex (navigationState
     (processLocationUpdate 0 (mkSample (0, 0.1) 1) shortNavigation)) \<le> 1"
    using step_advance_rule [of shortNavigation shortRoute 0 "mkSample (0, 0.1) 1"]
    by (simp add: shortNavigation_state)
  show ?thesis
    using step_advance_rule [of shortNavigation shortRoute 0 "mkSample (0, 0.0099) 1"]
      step_advance_rule [of shortNavigation shortRoute 0 "mkSample (0, 0.1) 1"]
      at_turn_distance far le
    by (simp add: shortNavigation_state shortRoute_steps mkSample_def mkStep_def)
qed

section \<open>The scenario of the specification\<close>

lemma distance_self: "calculateDistanceBetweenPoints c c = 0"
  by (simp add: calculateDistanceBetweenPoints_def atan2_def)

lemma scenario_sample_near:
  "calculateDistanceBetweenPoints (0, 0.0039) (0, 0.004) < 30"
  "calculateDistanceBetweenPoints (0.0039, 0) (0.004, 0) < 30"
  using distance_same_longitude [of "0.004" "0.0039" 0]
    distance_on_equator [of "0.004" "0.0039"] pi_less_4
  by simp_all

lemma scenarioStart_state:
  "renderedRoute \<noteq> None \<Longrightarrow>
   navigationState (scenarioStart renderedRoute f line now) =
     \<lparr>mode = active, route = Some (scenarioRoute f line),
      destination = Some (mkDestination (f (0, 0.01))),
      origin = Some (f (0, 0)), currentStepIndex = 0, distanceToNextManeuver = 400,
      isOffRoute = False, isRerouting = False, eta = Some (now + 120000),
      remainingDistance = 1000, remainingDuration = 120\<rparr>"
  by (simp add: scenarioStart_def startActiveNavigation_def setPreviewRoute_def
      stepDistanceOr0_def calculateETA_def scenarioRoute_def mkRoute_def mkStep_def)

lemma scenarioRoute_steps:
  "steps (scenarioRoute f line) = [mkStep 400 40 (f (0, 0.004)), mkStep 600 80 (f (0, 0.01))]"
  by (simp add: scenarioRoute_def mkRoute_def)

lemma scenario_after_sample:
  assumes "calculateDistanceBetweenPoints (f (0, 0.0039)) (f (0, 0.004)) < 30"
    and "renderedRoute \<noteq> None"
  shows "currentStepIndex (navigationState
           (processLocationUpdate now' (scenarioSample f t)
              (scenarioStart renderedRoute f line now))) = 1 \<and>
         distanceToNextManeuver (navigationState
           (processLocationUpdate now' (scenarioSample f t)
              (scenarioStart renderedRoute f line now))) = 600 \<and>
         remainingDistance (navigationState
           (processLocationUpdate now' (scenarioSample f t)
              (scenarioStart renderedRoute f line now))) = 600 \<and>
         remainingDuration (navigationState
           (processLocationUpdate now' (scenarioSample f t)
              (scenarioStart renderedRoute f line now))) = 80"
  using assms(1)
  by (simp add: processLocationUpdate_def Let_def scenarioStart_state [OF assms(2)]
      scenarioRoute_steps arrived_def scenarioSample_def mkSample_def mkStep_def
      STEP_ADVANCE_THRESHOLD_def updateNavigationProgress_def setOffRoute_def
      stepDistanceOr0_def)

text \<open>
  The scenario as the panel runs it. The first press of Start calls both actions while
  no route is rendered, and leaves the preview; the next press starts the navigation.
\<close>

lemma scenario_by_handleStart:
  "handleStart now (scenarioRoute f line) (mkDestination (f (0, 0.01))) (f (0, 0))
     initialProvider =
   setPreviewRoute now (scenarioRoute f line) (mkDestination (f (0, 0.01))) (f (0, 0))
     initialProvider"
  "handleStart now' (scenarioRoute f line) (mkDestination (f (0, 0.01))) (f (0, 0))
     (handleStart now (scenarioRoute f line) (mkDestination (f (0, 0.01))) (f (0, 0))
        initialProvider) =
   scenarioStart (Some (scenarioRoute f line)) f line now'"
  by (simp_all add: handleStart_def scenarioStart_def startActiveNavigation_def
      setPreviewRoute_def initialProvider_def initialNavigationState_def)

text \<open>
  Counterexample to C3 as stated. In the scenario, read with latitude first as the
  specification writes coordinates and started from the render that shows the route, the
  sample at \<open>(0, 0.0039)\<close> leaves a remaining distance of exactly 600: on an advance the
  distance to the next maneuver is the new step's full length, and the 11 m to the
  maneuver just passed are not added. 600 is not within 1 m of 611.
\<close>

theorem scenario_remaining_is_600:
  "remainingDistance (navigationState
     (processLocationUpdate 0 (scenarioSample prod.swap 1)
        (scenarioStart (Some (scenarioRoute prod.swap [(0, 0), (0.004, 0), (0.01, 0)]))
           prod.swap [(0, 0), (0.004, 0), (0.01, 0)] 0))) = 600 \<and>
   \<not> \<bar>remainingDistance (navigationState
     (processLocationUpdate 0 (scenarioSample prod.swap 1)
        (scenarioStart (Some (scenarioRoute prod.swap [(0, 0), (0.004, 0), (0.01, 0)]))
           prod.swap [(0, 0), (0.004, 0), (0.01, 0)] 0))) - 611\<bar> < 1"
  using scenario_after_sample
      [of prod.swap "Some (scenarioRoute prod.swap [(0, 0), (0.004, 0), (0.01, 0)])"
          0 1 "[(0, 0), (0.004, 0), (0.01, 0)]" 0]
    scenario_sample_near
  by simp

text \<open>
  C3, as amended. In either reading of the coordinate pairs and for every polyline and
  clock: \<open>setPreviewRoute\<close> followed by a \<open>startActiveNavigation\<close> whose render already
  had a route gives mode active, step index 0, 400 m to the next maneuver and 1000 m
  remaining; the sample at \<open>(0, 0.0039)\<close> then advances the step index to 1 and sets
  both the distance to the next maneuver and the remaining distance to 600.
\<close>

theorem scenario_progress:
  "(f = id \<or> f = prod.swap) \<and> renderedRoute \<noteq> None \<Longrightarrow>
   mode (navigationState (scenarioStart renderedRoute f line now)) = active \<and>
   currentStepIndex (navigationState (scenarioStart renderedRoute f line now)) = 0 \<and>
   distanceToNextManeuver (navigationState (scenarioStart renderedRoute f line now)) = 400 \<and>
   remainingDistance (navigationState (scenarioStart renderedRoute f line now)) = 1000 \<and>
   currentStepIndex (navigationState
     (processLocationUpdate now' (scenarioSample f t)
        (scenarioStart renderedRoute f line now))) = 1 \<and>
   distanceToNextManeuver (navigationState
     (processLocationUpdate now' (scenarioSample f t)
        (scenarioStart renderedRoute f line now))) = 600 \<and>
   remainingDistance (navigationState
     (processLocationUpdate now' (scenarioSample f t)
        (scenarioStart renderedRoute f line now))) = 600"
proof -
  assume a: "(f = id \<or> f = prod.swap) \<and> renderedRoute \<noteq> None"
  then have r: "renderedRoute \<noteq> None" by simp
  from a have "calculateDistanceBetweenPoints (f (0, 0.0039)) (f (0, 0.004)) < 30"
    using scenario_sample_near by auto
  from scenario_after_sample [OF this r, of now' t line now] show ?thesis
    by (simp add: scenarioStart_state [OF r])
qed

text \<open>
  C3 with longitude first and the polyline through the two maneuver points, started
  from the render that shows this route.
\<close>

theorem scenario_progress_witness:
  "mode (navigationState
     (scenarioStart (Some (scenarioRoute id [(0, 0), (0, 0.004), (0, 0.01)]))
        id [(0, 0), (0, 0.004), (0, 0.01)] 0)) = active \<and>
   remainingDistance (navigationState
     (scenarioStart (Some (scenarioRoute id [(0, 0), (0, 0.004), (0, 0.01)]))
        id [(0, 0), (0, 0.004), (0, 0.01)] 0)) = 1000 \<and>
   currentStepIndex (navigationState
     (processLocationUpdate 0 (scenarioSample id 1)
        (scenarioStart (Some (scenarioRoute id [(0, 0), (0, 0.004), (0, 0.01)]))
           id [(0, 0), (0, 0.004), (0, 0.01)] 0))) = 1 \<and>
   remainingDistance (navigationState
     (processLocationUpdate 0 (scenarioSample id 1)
        (scenarioStart (Some (scenarioRoute id [(0, 0), (0, 0.004), (0, 0.01)]))
           id [(0, 0), (0, 0.004), (0, 0.01)] 0))) = 600"
  using scenario_progress
      [of id "Some (scenarioRoute id [(0, 0), (0, 0.004), (0, 0.01)])"
          "[(0, 0), (0, 0.004), (0, 0.01)]" 0 0 1]
  by simp

section \<open>Arrival\<close>

lemma processLocationUpdate_arrival:
  assumes "route (navigationState p) = Some r"
    and "currentStepIndex (navigationState p) < length (steps r)"
    and "arrived (navigationState p) r (longitude loc, latitude loc)"
  shows "processLocationUpdate now loc p = endNavigation p"
  using assms by (auto simp: processLocationUpdate_def Let_def)

lemma processLocationUpdate_no_route:
  "route (navigationState p) = None \<Longrightarrow> processLocationUpdate now loc p = p"
  by (simp add: processLocationUpdate_def)

lemma processLocationUpdate_keeps:
  assumes "route (navigationState p) = Some r"
    and "currentStepIndex (navigationState p) < length (steps r)"
    and "\<not> arrived (navigationState p) r (longitude loc, latitude loc)"
  shows "route (navigationState (processLocationUpdate now loc p)) = Some r \<and>
         destination (navigationState (processLocationUpdate now loc p)) =
           destination (navigationState p) \<and>
         mode (navigationState (processLocationUpdate now loc p)) = mode (navigationState p) \<and>
         isRerouting (navigationState (processLocationUpdate now loc p)) =
           isRerouting (navigationState p)"
  using assms
  by (auto simp: processLocationUpdate_def Let_def updateNavigationProgress_keeps
      setOffRoute_def)

lemma near_destination:
  "calculateDistanceBetweenPoints (0, 0.01) (0, 0.0099) < 30"
  using distance_same_longitude [of "0.0099" "0.01" 0] pi_less_4 by simp

lemma shortNavigation_not_arrived:
  "\<not> arrived (navigationState shortNavigation) shortRoute c"
  by (simp add: arrived_def shortNavigation_state shortRoute_steps)

lemma lastStepNavigation_fields:
  "route (navigationState lastStepNavigation) = Some shortRoute"
  "destination (navigationState lastStepNavigation) = Some (mkDestination (0, 0.01))"
  "mode (navigationState lastStepNavigation) = active"
  "currentStepIndex (navigationState lastStepNavigation) = 1"
proof -
  have r: "route (navigationState shortNavigation) = Some shortRoute"
    and i: "currentStepIndex (navigationState shortNavigation) < length (steps shortRoute)"
    by (simp_all add: shortNavigation_state shortRoute_steps)
  have a: "\<not> arrived (navigationState shortNavigation) shortRoute
              (longitude (mkSample (0, 0.01) 1), latitude (mkSample (0, 0.01) 1))"
    by (rule shortNavigation_not_arrived)
  from processLocationUpdate_keeps [OF r i a, of 0]
  show "route (navigationState lastStepNavigation) = Some shortRoute"
    "destination (navigationState lastStepNavigation) = Some (mkDestination (0, 0.01))"
    "mode (navigationState lastStepNavigation) = active"
    by (simp_all add: lastStepNavigation_def shortNavigation_state)
  from processLocationUpdate_index [OF r i, of 0 "mkSample (0, 0.01) 1"] a near_destination
  show "currentStepIndex (navigationState lastStepNavigation) = 1"
    by (simp add: lastStepNavigation_def shortNavigation_state shortRoute_steps mkSample_def
        mkStep_def STEP_ADVANCE_THRESHOLD_def)
qed

text \<open>
  Counterexample to C1 as stated. On \<open>shortRoute\<close>, in active navigation on step 0, a
  sample at the destination is within 30 m of the first turn, so the step-advancement
  rule moves the index to the last step, and it is 0 m from the destination. The arrival
  test reads the index the sample started with: the navigation stays active and keeps
  its route.
\<close>

theorem arrival_not_taken_on_advancing_sample:
  "mode (navigationState shortNavigation) = active \<and>
   route (navigationState shortNavigation) = Some shortRoute \<and>
   destination (navigationState shortNavigation) = Some (mkDestination (0, 0.01)) \<and>
   calculateDistanceBetweenPoints (0, 0.01) (sel_coordinates (mkDestination (0, 0.01))) < 30 \<and>
   currentStepIndex (navigationState
     (processLocationUpdate 0 (mkSample (0, 0.01) 1) shortNavigation)) =
     length (steps shortRoute) - 1 \<and>
   mode (navigationState (processLocationUpdate 0 (mkSample (0, 0.01) 1) shortNavigation)) = active \<and>
   route (navigationState (processLocationUpdate 0 (mkSample (0, 0.01) 1) shortNavigation)) =
     Some shortRoute"
  using lastStepNavigation_fields
  by (simp add: lastStepNavigation_def shortNavigation_state shortRoute_steps mkDestination_def
      distance_self)

text \<open>
  C1, as amended. With a route and a destination set, a sample that finds the step index
  already on the last step (the index before the step-advancement rule of that sample) and
  lies less than 30 m from the destination ends the navigation: the whole navigation
  state is the initial one, with mode idle and no route, and nothing else is done with the
  sample. Processing the same sample again leaves that state unchanged.
\<close>

theorem arrival_ends_navigation:
  assumes "route (navigationState p) = Some r"
    and "destination (navigationState p) = Some dest"
    and "currentStepIndex (navigationState p) < length (steps r)"
    and "length (steps r) - 1 \<le> currentStepIndex (navigationState p)"
    and "calculateDistanceBetweenPoints (longitude loc, latitude loc) (sel_coordinates dest) < 30"
  shows "processLocationUpdate now loc p = endNavigation p \<and>
         navigationState (processLocationUpdate now loc p) = initialNavigationState \<and>
         mode (navigationState (processLocationUpdate now loc p)) = idle \<and>
         route (navigationState (processLocationUpdate now loc p)) = None \<and>
         processLocationUpdate now' loc (processLocationUpdate now loc p) =
           processLocationUpdate now loc p"
proof -
  have "arrived (navigationState p) r (longitude loc, latitude loc)"
    using assms by (simp add: arrived_def ARRIVAL_THRESHOLD_def)
  from processLocationUpdate_arrival [OF assms(1) assms(3) this]
  have e: "processLocationUpdate now loc p = endNavigation p" .
  have n: "navigationState (endNavigation p) = initialNavigationState"
    by (simp add: endNavigation_def)
  have "route (navigationState (endNavigation p)) = None"
    by (simp add: n initialNavigationState_def)
  from processLocationUpdate_no_route [OF this] e n show ?thesis
    by (simp add: initialNavigationState_def)
qed

text \<open>
  C1 on \<open>shortRoute\<close>: the navigation that a first sample at the destination has moved
  to the last step is ended by the next sample there, once.
\<close>

theorem arrival_ends_navigation_witness:
  "mode (navigationState lastStepNavigation) = active \<and>
   currentStepIndex (navigationState lastStepNavigation) = 1 \<and>
   processLocationUpdate 0 (mkSample (0, 0.01) 2) lastStepNavigation =
     endNavigation lastStepNavigation \<and>
   mode (navigationState (processLocationUpdate 0 (mkSample (0, 0.01) 2) lastStepNavigation)) = idle \<and>
   processLocationUpdate 0 (mkSample (0, 0.01) 2)
     (processLocationUpdate 0 (mkSample (0, 0.01) 2) lastStepNavigation) =
     processLocationUpdate 0 (mkSample (0, 0.01) 2) lastStepNavigation"
proof -
  have i: "currentStepIndex (navigationState lastStepNavigation) < length (steps shortRoute)"
    and l: "length (steps shortRoute) - 1 \<le> currentStepIndex (navigationState lastStepNavigation)"
    by (simp_all add: lastStepNavigation_fields shortRoute_steps)
  have d: "calculateDistanceBetweenPoints
             (longitude (mkSample (0, 0.01) 2), latitude (mkSample (0, 0.01) 2))
             (sel_coordinates (mkDestination (0, 0.01))) < 30"
    by (simp add: mkSample_def mkDestination_def distance_self)
  from arrival_ends_navigation [OF lastStepNavigation_fields(1) lastStepNavigation_fields(2)
      i l d, of 0 0]
  show ?thesis using lastStepNavigation_fields(3,4) by blast
qed

section \<open>Invariants of the page\<close>

lemma debounceEffect_fields:
  "instanceId (debounceEffect clk ns loc v) = instanceId v"
  "lastProcessedLocationRef (debounceEffect clk ns loc v) = lastProcessedLocationRef v"
  "isReroutingRef (debounceEffect clk ns loc v) = isReroutingRef v"
  by (simp_all add: debounceEffect_def Let_def split: option.splits)

lemma debounceEffect_timer:
  "rerouteTimeoutRef (debounceEffect clk ns loc v) =
     (if isOffRoute ns \<and> \<not> isRerouting ns
      then map_option (\<lambda>l. \<lparr>armedAt = clk, timerLocation = l, timerDestination = destination ns\<rparr>) loc
      else None)"
  by (simp add: debounceEffect_def Let_def split: option.splits)

lemma watchEffect_fields:
  "instanceId (fst (watchEffect now loc vp)) = instanceId (fst vp)"
  "rerouteTimeoutRef (fst (watchEffect now loc vp)) = rerouteTimeoutRef (fst vp)"
  "isReroutingRef (fst (watchEffect now loc vp)) = isReroutingRef (fst vp)"
  by (simp_all add: watchEffect_def split: option.splits)

lemma sameSample_refl: "sameSample (Some loc) loc"
  by (simp add: sameSample_def)

lemma watchEffect_seen:
  "sameSample (lastProcessedLocationRef (fst (watchEffect now (Some loc) vp))) loc"
  by (simp add: watchEffect_def sameSample_refl)

lemma watchEffect_same:
  "(case loc of None \<Rightarrow> True | Some l \<Rightarrow> sameSample (lastProcessedLocationRef (fst vp)) l) \<Longrightarrow>
   watchEffect now loc vp = vp"
  by (simp add: watchEffect_def split: option.splits)

lemma effectsAfter_frame:
  "calls (effectsAfter old w) = calls w"
  "inflight (effectsAfter old w) = inflight w"
  "clock (effectsAfter old w) = clock w"
  "mounts (effectsAfter old w) = mounts w"
  "token (effectsAfter old w) = token w"
  "position (effectsAfter old w) = position w"
  by (simp_all add: effectsAfter_def Let_def split: option.splits)

lemma mount_frame:
  "calls (mount w) = calls w"
  "inflight (mount w) = inflight w"
  "clock (mount w) = clock w"
  "mounts (mount w) = mounts w + 1"
  "token (mount w) = token w"
  "position (mount w) = position w"
  by (simp_all add: mount_def Let_def)

lemma commit_frame:
  "calls (commit old w) = calls w"
  "inflight (commit old w) = inflight w"
  "clock (commit old w) = clock w"
  "token (commit old w) = token w"
  "position (commit old w) = position w"
  by (simp_all add: commit_def effectsAfter_frame mount_frame split: option.splits)

lemma effectsAfter_ready:
  assumes v: "view w = Some v" and r: "viewReady old w v"
  shows "provider (effectsAfter old w) = provider w"
    and "view (effectsAfter old w) = None \<or>
         (mode (navigationState (provider w)) = active \<and>
          (view (effectsAfter old w) = Some v \<and>
             isOffRoute (navigationState (provider w)) = isOffRoute old \<and>
             isRerouting (navigationState (provider w)) = isRerouting old \<or>
           view (effectsAfter old w) =
             Some (debounceEffect (clock w) (navigationState (provider w)) (position w) v)))"
proof -
  have s: "case position w of None \<Rightarrow> True
           | Some l \<Rightarrow> sameSample (lastProcessedLocationRef (fst (u, provider w))) l"
    if "lastProcessedLocationRef u = lastProcessedLocationRef v" for u
    using r that by (auto simp: viewReady_def split: option.splits)
  have w1: "watchEffect now (position w) (v, provider w) = (v, provider w)" for now
    by (rule watchEffect_same) (simp add: s)
  have w2: "watchEffect now (position w)
              (debounceEffect c ns (position w) v, provider w) =
            (debounceEffect c ns (position w) v, provider w)" for now c ns
    by (rule watchEffect_same) (simp add: s debounceEffect_fields)
  show "provider (effectsAfter old w) = provider w"
    using v by (simp add: effectsAfter_def Let_def w1 w2)
  show "view (effectsAfter old w) = None \<or>
         (mode (navigationState (provider w)) = active \<and>
          (view (effectsAfter old w) = Some v \<and>
             isOffRoute (navigationState (provider w)) = isOffRoute old \<and>
             isRerouting (navigationState (provider w)) = isRerouting old \<or>
           view (effectsAfter old w) =
             Some (debounceEffect (clock w) (navigationState (provider w)) (position w) v)))"
    using v by (simp add: effectsAfter_def Let_def w1 w2)
qed

lemma effectsAfter_viewOk:
  assumes v: "view w = Some v" and r: "viewReady old w v"
    and v': "view (effectsAfter old w) = Some v'"
  shows "viewOk (effectsAfter old w) v'"
proof -
  note p = effectsAfter_ready(1) [OF v r]
  from effectsAfter_ready(2) [OF v r] v'
  have m: "mode (navigationState (provider w)) = active"
    and c: "v' = v \<and> isOffRoute (navigationState (provider w)) = isOffRoute old \<and>
              isRerouting (navigationState (provider w)) = isRerouting old \<or>
            v' = debounceEffect (clock w) (navigationState (provider w)) (position w) v"
    by auto
  from c show ?thesis
  proof
    assume "v' = v \<and> isOffRoute (navigationState (provider w)) = isOffRoute old \<and>
              isRerouting (navigationState (provider w)) = isRerouting old"
    then show ?thesis
      using r m by (auto simp: viewOk_def viewReady_def p effectsAfter_frame split: option.splits)
  next
    assume "v' = debounceEffect (clock w) (navigationState (provider w)) (position w) v"
    then show ?thesis
      using r m
      by (auto simp: viewOk_def viewReady_def p effectsAfter_frame debounceEffect_fields
          debounceEffect_timer split: option.splits)
  qed
qed

lemma effectsAfter_wellFormed:
  assumes v: "view w = Some v" and r: "viewReady old w v"
    and d: "distinct (inflight w)" and b: "\<forall>i \<in> set (inflight w). i \<le> mounts w"
  shows "wellFormed (effectsAfter old w)"
  using effectsAfter_viewOk [OF v r] d b
  by (auto simp: wellFormed_def effectsAfter_frame split: option.splits)


lemma viewOk_ready:
  "viewOk w v \<Longrightarrow> viewReady (navigationState (provider w)) w v"
  by (simp add: viewOk_def viewReady_def)

lemma mount_ready:
  assumes b: "\<forall>i \<in> set (inflight w). i \<le> mounts w"
  shows "\<exists>v. view (mount w) = Some v \<and> viewReady (navigationState (provider w)) (mount w) v"
proof -
  have "mounts w + 1 \<notin> set (inflight w)"
    using b by auto
  then show ?thesis
    by (cases "position w")
      (auto simp: mount_def Let_def viewReady_def watchEffect_fields debounceEffect_fields
        debounceEffect_timer watchEffect_seen freshView_def split: option.splits)
qed

lemma commit_wellFormed:
  assumes r: "case view w of None \<Rightarrow> True | Some v \<Rightarrow> viewReady old w v"
    and d: "distinct (inflight w)" and b: "\<forall>i \<in> set (inflight w). i \<le> mounts w"
  shows "wellFormed (commit old w)"
proof (cases "view w")
  case None
  show ?thesis
  proof (cases "mode (navigationState (provider w)) = active")
    case True
    from mount_ready [OF b] obtain v where
      v: "view (mount w) = Some v" "viewReady (navigationState (provider w)) (mount w) v"
      by blast
    have "wellFormed (effectsAfter (navigationState (provider w)) (mount w))"
      using d b by (intro effectsAfter_wellFormed [OF v]) (auto simp: mount_frame)
    with None True show ?thesis by (simp add: commit_def)
  next
    case False
    with None d b show ?thesis by (simp add: commit_def wellFormed_def)
  qed
next
  case (Some v)
  with r have "viewReady old w v" by simp
  from effectsAfter_wellFormed [OF Some this d b] Some show ?thesis
    by (simp add: commit_def)
qed

lemma wellFormed_parts:
  assumes "wellFormed w"
  shows "distinct (inflight w)" "\<forall>i \<in> set (inflight w). i \<le> mounts w"
    "view w = Some v \<Longrightarrow> viewOk w v"
  using assms by (auto simp: wellFormed_def)

lemma wellFormed_ready:
  assumes "wellFormed w"
  shows "case view w of None \<Rightarrow> True | Some v \<Rightarrow> viewReady (navigationState (provider w)) w v"
  using assms by (auto simp: wellFormed_def viewOk_ready split: option.splits)

lemma provider_change_wellFormed:
  assumes "wellFormed w"
  shows "wellFormed (commit (navigationState (provider w)) (w\<lparr>provider := p\<rparr>))"
proof (rule commit_wellFormed)
  show "case view (w\<lparr>provider := p\<rparr>) of None \<Rightarrow> True
        | Some v \<Rightarrow> viewReady (navigationState (provider w)) (w\<lparr>provider := p\<rparr>) v"
    using wellFormed_ready [OF assms] by (auto simp: viewReady_def split: option.splits)
qed (use wellFormed_parts [OF assms] in simp_all)

lemma tick_wellFormed:
  assumes "wellFormed w"
  shows "wellFormed (step (Tick n) w)"
  using assms by (auto simp: wellFormed_def viewOk_def split: option.splits)

lemma position_wellFormed:
  assumes "wellFormed w"
  shows "wellFormed (step (Position loc) w)"
proof (cases "view w")
  case None
  with assms show ?thesis by (simp add: wellFormed_def)
next
  case (Some v)
  define vp where "vp = watchEffect (real (clock w)) (Some loc)
     (debounceEffect (clock w) (navigationState (provider w)) (Some loc) v, provider w)"
  define w' where "w' = w\<lparr>position := Some loc, view := Some (fst vp), provider := snd vp\<rparr>"
  have ok: "viewOk w v" using wellFormed_parts(3) [OF assms Some] .
  have r: "viewReady (navigationState (provider w)) w' (fst vp)"
    using ok
    by (auto simp: viewReady_def viewOk_def w'_def vp_def watchEffect_fields
        debounceEffect_fields debounceEffect_timer watchEffect_seen)
  have "wellFormed (effectsAfter (navigationState (provider w)) w')"
    using wellFormed_parts(1,2) [OF assms]
    by (intro effectsAfter_wellFormed [OF _ r]) (simp_all add: w'_def)
  then show ?thesis using Some by (simp add: Let_def w'_def vp_def)
qed

lemma timerCallback_frame:
  "clock (timerCallback v t w) = clock w"
  "mounts (timerCallback v t w) = mounts w"
  "position (timerCallback v t w) = position w"
  "token (timerCallback v t w) = token w"
  by (simp_all add: timerCallback_def Let_def split: option.splits)

lemma handleRerouteStart_view:
  "instanceId (fst (fst (handleRerouteStart tok dest c vp))) = instanceId (fst vp)"
  "lastProcessedLocationRef (fst (fst (handleRerouteStart tok dest c vp))) =
     lastProcessedLocationRef (fst vp)"
  "rerouteTimeoutRef (fst (fst (handleRerouteStart tok dest c vp))) = rerouteTimeoutRef (fst vp)"
  by (simp_all add: handleRerouteStart_def Let_def split: option.splits)

lemma handleRerouteStart_request:
  "snd (handleRerouteStart tok dest c vp) = Some rq \<Longrightarrow>
     \<not> isReroutingRef (fst vp) \<and> tok \<noteq> [] \<and>
     (\<exists>d. dest = Some d \<and> rq = (c, sel_coordinates d)) \<and>
     isReroutingRef (fst (fst (handleRerouteStart tok dest c vp)))"
  by (auto simp: handleRerouteStart_def Let_def split: option.splits if_splits)

lemma handleRerouteStart_no_request:
  "snd (handleRerouteStart tok dest c vp) = None \<Longrightarrow>
     isReroutingRef (fst (fst (handleRerouteStart tok dest c vp))) = isReroutingRef (fst vp)"
  by (auto simp: handleRerouteStart_def Let_def split: option.splits if_splits)

lemma timerCallback_ready:
  assumes ok: "viewOk w v" and d: "distinct (inflight w)"
    and b: "\<forall>i \<in> set (inflight w). i \<le> mounts w"
  shows "\<exists>v'. view (timerCallback v t w) = Some v' \<and>
           viewReady (navigationState (provider w)) (timerCallback v t w) v' \<and>
           rerouteTimeoutRef v' = None"
    and "distinct (inflight (timerCallback v t w))"
    and "\<forall>i \<in> set (inflight (timerCallback v t w)). i \<le> mounts (timerCallback v t w)"
proof -
  let ?st = "handleRerouteStart (token w) (timerDestination t)
              (longitude (timerLocation t), latitude (timerLocation t))
              (v\<lparr>rerouteTimeoutRef := None\<rparr>, provider w)"
  have f: "instanceId (fst (fst ?st)) = instanceId v"
    "lastProcessedLocationRef (fst (fst ?st)) = lastProcessedLocationRef v"
    "rerouteTimeoutRef (fst (fst ?st)) = None"
    by (simp_all add: handleRerouteStart_view)
  from ok have o: "instanceId v = mounts w"
    "instanceId v \<in> set (inflight w) \<longrightarrow> isReroutingRef v"
    "case position w of None \<Rightarrow> True | Some loc \<Rightarrow> sameSample (lastProcessedLocationRef v) loc"
    by (simp_all add: viewOk_def)
  show "\<exists>v'. view (timerCallback v t w) = Some v' \<and>
           viewReady (navigationState (provider w)) (timerCallback v t w) v' \<and>
           rerouteTimeoutRef v' = None"
  proof (cases "snd ?st")
    case None
    from handleRerouteStart_no_request [OF None]
    have "isReroutingRef (fst (fst ?st)) = isReroutingRef v" by simp
    with o f show ?thesis
      by (auto simp: timerCallback_def Let_def None viewReady_def split: option.splits)
  next
    case (Some rq)
    from handleRerouteStart_request [OF Some]
    have "isReroutingRef (fst (fst ?st))" by simp
    with o f show ?thesis
      by (auto simp: timerCallback_def Let_def Some viewReady_def split: option.splits)
  qed
  show "distinct (inflight (timerCallback v t w))"
  proof (cases "snd ?st")
    case None
    then show ?thesis using d by (simp add: timerCallback_def Let_def)
  next
    case (Some rq)
    from handleRerouteStart_request [OF Some] ok d show ?thesis
      by (auto simp: timerCallback_def Let_def Some viewOk_def)
  qed
  show "\<forall>i \<in> set (inflight (timerCallback v t w)). i \<le> mounts (timerCallback v t w)"
    using b ok by (auto simp: timerCallback_def Let_def viewOk_def split: option.splits)
qed

lemma timerFire_wellFormed:
  assumes "wellFormed w"
  shows "wellFormed (step TimerFire w)"
proof (cases "view w")
  case None
  with assms show ?thesis by simp
next
  case (Some v)
  show ?thesis
  proof (cases "rerouteTimeoutRef v")
    case None
    with Some assms show ?thesis by simp
  next
    case (Some t)
    show ?thesis
    proof (cases "clock w < armedAt t + REROUTE_DELAY")
      case True
      with Some \<open>view w = Some v\<close> assms show ?thesis by simp
    next
      case False
      note tc = timerCallback_ready [OF wellFormed_parts(3) [OF assms \<open>view w = Some v\<close>]
          wellFormed_parts(1,2) [OF assms], of t]
      from tc(1) obtain v' where
        v': "view (timerCallback v t w) = Some v'"
          "viewReady (navigationState (provider w)) (timerCallback v t w) v'"
        by blast
      from effectsAfter_wellFormed [OF v' tc(2) tc(3)] False Some \<open>view w = Some v\<close>
      show ?thesis by simp
    qed
  qed
qed

lemma remove_nth_distinct:
  assumes "i < length xs" "distinct xs"
  shows "xs ! i \<notin> set (take i xs @ drop (Suc i) xs) \<and>
         distinct (take i xs @ drop (Suc i) xs)"
proof -
  have "distinct (take i xs @ xs ! i # drop (Suc i) xs)"
    using assms id_take_nth_drop [of i xs] by simp
  then show ?thesis by auto
qed

lemma response_wellFormed:
  assumes "wellFormed w"
  shows "wellFormed (step (Response i res) w)"
proof (cases "i < length (inflight w)")
  case False
  with assms show ?thesis by simp
next
  case True
  let ?rest = "take i (inflight w) @ drop (Suc i) (inflight w)"
  let ?w = "w\<lparr>provider := handleRerouteResume (real (clock w)) res (provider w),
              view := map_option
                (\<lambda>v. if instanceId v = inflight w ! i then v\<lparr>isReroutingRef := False\<rparr> else v)
                (view w),
              inflight := ?rest\<rparr>"
  note parts = wellFormed_parts [OF assms]
  have sub: "set ?rest \<subseteq> set (inflight w)"
    by (auto dest: in_set_takeD in_set_dropD)
  from remove_nth_distinct [OF True parts(1)]
  have gone: "inflight w ! i \<notin> set ?rest" and dist: "distinct ?rest"
    by simp_all
  have "wellFormed (commit (navigationState (provider w)) ?w)"
  proof (rule commit_wellFormed)
    show "case view ?w of None \<Rightarrow> True
          | Some v \<Rightarrow> viewReady (navigationState (provider w)) ?w v"
    proof (cases "view w")
      case None
      then show ?thesis by simp
    next
      case (Some v)
      from parts(3) [OF Some] sub gone show ?thesis
        by (auto simp: Some viewReady_def viewOk_def split: option.splits)
    qed
    show "distinct (inflight ?w)" using dist by simp
    show "\<forall>i \<in> set (inflight ?w). i \<le> mounts ?w" using parts(2) sub by auto
  qed
  with True show ?thesis by simp
qed

lemma step_wellFormed:
  assumes "wellFormed w"
  shows "wellFormed (step e w)"
proof (cases e)
  case (Tick n)
  then show ?thesis using tick_wellFormed [OF assms] by simp
next
  case (Position loc)
  then show ?thesis using position_wellFormed [OF assms] by simp
next
  case TimerFire
  then show ?thesis using timerFire_wellFormed [OF assms] by simp
next
  case (Response i res)
  then show ?thesis using response_wellFormed [OF assms] by simp
next
  case (SetPreviewRoute r dest orig)
  then show ?thesis using provider_change_wellFormed [OF assms] by simp
next
  case StartActive
  then show ?thesis using provider_change_wellFormed [OF assms] by simp
next
  case End
  then show ?thesis using provider_change_wellFormed [OF assms] assms
    by (simp split: option.splits)
qed

lemma initWorld_wellFormed: "wellFormed (initWorld tok)"
  by (simp add: wellFormed_def initWorld_def)

lemma run_wellFormed: "wellFormed w \<Longrightarrow> wellFormed (run es w)"
  unfolding run_def by (induction es arbitrary: w) (simp_all add: step_wellFormed)


lemma timerCallback_calls:
  assumes "calls (timerCallback v t w) \<noteq> calls w"
  shows "\<not> isReroutingRef v \<and> token w \<noteq> [] \<and>
         (\<exists>d. timerDestination t = Some d \<and>
              calls (timerCallback v t w) =
                calls w @ [((longitude (timerLocation t), latitude (timerLocation t)),
                            sel_coordinates d)])"
proof -
  let ?st = "handleRerouteStart (token w) (timerDestination t)
              (longitude (timerLocation t), latitude (timerLocation t))
              (v\<lparr>rerouteTimeoutRef := None\<rparr>, provider w)"
  from assms obtain rq where rq: "snd ?st = Some rq"
    by (cases "snd ?st") (auto simp: timerCallback_def Let_def)
  from handleRerouteStart_request [OF rq] rq show ?thesis
    by (auto simp: timerCallback_def Let_def)
qed

lemma step_calls:
  assumes "calls (step e w) \<noteq> calls w"
  shows "e = TimerFire \<and>
         (\<exists>v t d. view w = Some v \<and> rerouteTimeoutRef v = Some t \<and>
            armedAt t + REROUTE_DELAY \<le> clock w \<and> \<not> isReroutingRef v \<and> token w \<noteq> [] \<and>
            timerDestination t = Some d \<and>
            calls (step e w) =
              calls w @ [((longitude (timerLocation t), latitude (timerLocation t)),
                          sel_coordinates d)])"
proof (cases e)
  case TimerFire
  with assms obtain v t where vt: "view w = Some v" "rerouteTimeoutRef v = Some t"
    "\<not> clock w < armedAt t + REROUTE_DELAY"
    by (auto split: option.splits if_splits)
  with assms TimerFire have "calls (timerCallback v t w) \<noteq> calls w"
    by (simp add: effectsAfter_frame)
  from timerCallback_calls [OF this] vt TimerFire show ?thesis
    by (auto simp: effectsAfter_frame)
qed (use assms in \<open>auto simp: effectsAfter_frame commit_frame Let_def split: option.splits if_splits\<close>)

lemma step_clock:
  "clock w \<le> clock (step e w)"
  "e \<noteq> Tick n' \<or> clock (step e w) = clock w + n'"
  by (cases e; auto simp: effectsAfter_frame commit_frame timerCallback_frame Let_def
      split: option.splits)+

lemma effectsAfter_timer:
  assumes v: "view w = Some v" and r: "viewReady old w v"
    and v': "view (effectsAfter old w) = Some v'" and t': "rerouteTimeoutRef v' = Some t'"
  shows "armedAt t' = clock w \<or> rerouteTimeoutRef v = Some t'"
  using effectsAfter_ready(2) [OF v r] v' t'
  by (auto simp: debounceEffect_timer split: if_splits)

lemma commit_timer:
  assumes r: "case view w of None \<Rightarrow> True | Some v \<Rightarrow> viewReady old w v"
    and b: "\<forall>i \<in> set (inflight w). i \<le> mounts w"
    and v': "view (commit old w) = Some v'" and t': "rerouteTimeoutRef v' = Some t'"
  shows "armedAt t' = clock w \<or> (\<exists>v. view w = Some v \<and> rerouteTimeoutRef v = Some t')"
proof (cases "view w")
  case None
  with v' have a: "mode (navigationState (provider w)) = active"
    and e: "view (effectsAfter (navigationState (provider w)) (mount w)) = Some v'"
    by (auto simp: commit_def split: if_splits)
  from mount_ready [OF b] obtain v where
    v: "view (mount w) = Some v" "viewReady (navigationState (provider w)) (mount w) v"
    by blast
  have "rerouteTimeoutRef v = Some t' \<Longrightarrow> armedAt t' = clock w"
    using v(1)
    by (auto simp: mount_def Let_def watchEffect_fields debounceEffect_timer split: if_splits)
  with effectsAfter_timer [OF v e t'] show ?thesis by (auto simp: mount_frame)
next
  case (Some v)
  with r have "viewReady old w v" by simp
  from effectsAfter_timer [OF Some this _ t'] v' Some show ?thesis
    by (auto simp: commit_def)
qed

lemma step_timer:
  assumes wf: "wellFormed w"
    and v': "view (step e w) = Some v'" and t': "rerouteTimeoutRef v' = Some t'"
  shows "armedAt t' = clock (step e w) \<or> (\<exists>v. view w = Some v \<and> rerouteTimeoutRef v = Some t')"
proof (cases e)
  case (Tick n)
  with v' t' show ?thesis by auto
next
  case (Position loc)
  show ?thesis
  proof (cases "view w")
    case None
    with Position v' show ?thesis by simp
  next
    case (Some v)
    define vp where "vp = watchEffect (real (clock w)) (Some loc)
       (debounceEffect (clock w) (navigationState (provider w)) (Some loc) v, provider w)"
    define w' where "w' = w\<lparr>position := Some loc, view := Some (fst vp), provider := snd vp\<rparr>"
    have ok: "viewOk w v" using wellFormed_parts(3) [OF wf Some] .
    have r: "viewReady (navigationState (provider w)) w' (fst vp)"
      using ok
      by (auto simp: viewReady_def viewOk_def w'_def vp_def watchEffect_fields
          debounceEffect_fields debounceEffect_timer watchEffect_seen)
    have vw: "view w' = Some (fst vp)" by (simp add: w'_def)
    have e: "step e w = effectsAfter (navigationState (provider w)) w'"
      using Position Some by (simp add: Let_def w'_def vp_def)
    have "rerouteTimeoutRef (fst vp) = Some t' \<Longrightarrow> armedAt t' = clock w"
      by (auto simp: vp_def watchEffect_fields debounceEffect_timer split: if_splits)
    with effectsAfter_timer [OF vw r, of v' t'] v' t' show ?thesis
      by (auto simp: e effectsAfter_frame w'_def)
  qed
next
  case TimerFire
  show ?thesis
  proof (cases "view w")
    case None
    with TimerFire v' show ?thesis by simp
  next
    case (Some v)
    show ?thesis
    proof (cases "rerouteTimeoutRef v")
      case None
      with Some TimerFire v' t' show ?thesis by simp
    next
      case (Some t)
      show ?thesis
      proof (cases "clock w < armedAt t + REROUTE_DELAY")
        case True
        with Some \<open>view w = Some v\<close> TimerFire v' t' show ?thesis by simp
      next
        case False
        note tc = timerCallback_ready [OF wellFormed_parts(3) [OF wf \<open>view w = Some v\<close>]
            wellFormed_parts(1,2) [OF wf], of t]
        from tc(1) obtain u where
          u: "view (timerCallback v t w) = Some u"
            "viewReady (navigationState (provider w)) (timerCallback v t w) u"
            "rerouteTimeoutRef u = None"
          by blast
        have e: "step e w = effectsAfter (navigationState (provider w)) (timerCallback v t w)"
          using TimerFire False Some \<open>view w = Some v\<close> by simp
        from effectsAfter_timer [OF u(1,2), of v' t'] v' t' u(3) show ?thesis
          by (auto simp: e effectsAfter_frame timerCallback_frame)
      qed
    qed
  qed
next
  case (Response i res)
  show ?thesis
  proof (cases "i < length (inflight w)")
    case False
    with Response v' t' show ?thesis by auto
  next
    case True
    let ?rest = "take i (inflight w) @ drop (Suc i) (inflight w)"
    let ?w = "w\<lparr>provider := handleRerouteResume (real (clock w)) res (provider w),
                view := map_option
                  (\<lambda>v. if instanceId v = inflight w ! i then v\<lparr>isReroutingRef := False\<rparr> else v)
                  (view w),
                inflight := ?rest\<rparr>"
    note parts = wellFormed_parts [OF wf]
    have sub: "set ?rest \<subseteq> set (inflight w)"
      by (auto dest: in_set_takeD in_set_dropD)
    from remove_nth_distinct [OF True parts(1)]
    have gone: "inflight w ! i \<notin> set ?rest" by simp
    have r: "case view ?w of None \<Rightarrow> True
          | Some v \<Rightarrow> viewReady (navigationState (provider w)) ?w v"
    proof (cases "view w")
      case None
      then show ?thesis by simp
    next
      case (Some v)
      from parts(3) [OF Some] sub gone show ?thesis
        by (auto simp: Some viewReady_def viewOk_def split: option.splits)
    qed
    have b: "\<forall>i \<in> set (inflight ?w). i \<le> mounts ?w" using parts(2) sub by auto
    have e: "step e w = commit (navigationState (provider w)) ?w"
      using Response True by simp
    from commit_timer [OF r b, of v' t'] v' t' show ?thesis
      by (auto simp: e commit_frame split: if_splits)
  qed
next
  case (SetPreviewRoute rt dest orig)
  let ?w = "w\<lparr>provider := setPreviewRoute (real (clock w)) rt dest orig (provider w)\<rparr>"
  have r: "case view ?w of None \<Rightarrow> True
        | Some v \<Rightarrow> viewReady (navigationState (provider w)) ?w v"
    using wellFormed_ready [OF wf] by (auto simp: viewReady_def split: option.splits)
  have b: "\<forall>i \<in> set (inflight ?w). i \<le> mounts ?w" using wellFormed_parts(2) [OF wf] by simp
  from commit_timer [OF r b, of v' t'] v' t' SetPreviewRoute show ?thesis
    by (auto simp: commit_frame)
next
  case StartActive
  let ?w = "w\<lparr>provider := startRendered (provider w)\<rparr>"
  have r: "case view ?w of None \<Rightarrow> True
        | Some v \<Rightarrow> viewReady (navigationState (provider w)) ?w v"
    using wellFormed_ready [OF wf] by (auto simp: viewReady_def split: option.splits)
  have b: "\<forall>i \<in> set (inflight ?w). i \<le> mounts ?w" using wellFormed_parts(2) [OF wf] by simp
  from commit_timer [OF r b, of v' t'] v' t' StartActive show ?thesis
    by (auto simp: commit_frame)
next
  case End
  let ?w = "w\<lparr>provider := endNavigation (provider w)\<rparr>"
  have r: "case view ?w of None \<Rightarrow> True
        | Some v \<Rightarrow> viewReady (navigationState (provider w)) ?w v"
    using wellFormed_ready [OF wf] by (auto simp: viewReady_def split: option.splits)
  have b: "\<forall>i \<in> set (inflight ?w). i \<le> mounts ?w" using wellFormed_parts(2) [OF wf] by simp
  show ?thesis
  proof (cases "view w")
    case None
    with End v' show ?thesis by simp
  next
    case (Some v)
    with commit_timer [OF r b, of v' t'] v' t' End show ?thesis
      by (auto simp: commit_frame)
  qed
qed

section \<open>Runs of the page\<close>

lemma run_snoc: "run (es @ [e]) w = step e (run es w)"
  by (simp add: run_def)

lemma run_take_Suc:
  "k < length es \<Longrightarrow> run (take (Suc k) es) w = step (es ! k) (run (take k es) w)"
  by (simp add: take_Suc_conv_app_nth run_snoc)

lemma pendingTimer_offRoute:
  "wellFormed w \<Longrightarrow> pendingTimer w = Some t \<Longrightarrow> offRoute w"
  by (auto simp: wellFormed_def viewOk_def pendingTimer_def offRoute_def split: option.splits)

lemma timer_history:
  assumes wf: "wellFormed w0" and none: "pendingTimer w0 = None"
  shows "n \<le> length es \<Longrightarrow> pendingTimer (run (take n es) w0) = Some t \<Longrightarrow>
         \<exists>j \<le> n. clock (run (take j es) w0) = armedAt t \<and>
           (\<forall>i. j \<le> i \<and> i \<le> n \<longrightarrow> pendingTimer (run (take i es) w0) = Some t)"
proof (induction n)
  case 0
  with none show ?case by (simp add: run_def)
next
  case (Suc n)
  then have n: "n < length es" by simp
  let ?w = "run (take n es) w0"
  have st: "run (take (Suc n) es) w0 = step (es ! n) ?w"
    using n by (rule run_take_Suc)
  have wfn: "wellFormed ?w" using wf by (rule run_wellFormed)
  from Suc.prems(2) obtain v' where v': "view (step (es ! n) ?w) = Some v'"
    "rerouteTimeoutRef v' = Some t"
    by (auto simp: st pendingTimer_def split: option.splits)
  from step_timer [OF wfn v'] show ?case
  proof
    assume "armedAt t = clock (step (es ! n) ?w)"
    then have "clock (run (take (Suc n) es) w0) = armedAt t \<and>
        (\<forall>i. Suc n \<le> i \<and> i \<le> Suc n \<longrightarrow> pendingTimer (run (take i es) w0) = Some t)"
      using Suc.prems(2) by (auto simp: st dest: le_antisym)
    then show ?thesis by blast
  next
    assume "\<exists>v. view ?w = Some v \<and> rerouteTimeoutRef v = Some t"
    then have "pendingTimer ?w = Some t" by (auto simp: pendingTimer_def)
    from Suc.IH [OF _ this] n obtain j where j: "j \<le> n" "clock (run (take j es) w0) = armedAt t"
      "\<forall>i. j \<le> i \<and> i \<le> n \<longrightarrow> pendingTimer (run (take i es) w0) = Some t"
      by auto
    have "\<forall>i. j \<le> i \<and> i \<le> Suc n \<longrightarrow> pendingTimer (run (take i es) w0) = Some t"
      using j(3) Suc.prems(2) by (auto simp: le_Suc_eq)
    with j(1,2) show ?thesis by (intro exI [of _ j]) simp
  qed
qed

section \<open>Two sessions, off route from the start\<close>

lemma shortNavigationAt_state:
  "navigationState (shortNavigationAt now) =
     \<lparr>mode = active, route = Some shortRoute, destination = Some shortDestination,
      origin = Some shortOrigin, currentStepIndex = 0, distanceToNextManeuver = 989,
      isOffRoute = False, isRerouting = False, eta = Some (now + 120000),
      remainingDistance = 1000, remainingDuration = 120\<rparr>"
  by (simp add: shortNavigationAt_def startRendered_def startActiveNavigation_def setPreviewRoute_def
      stepDistanceOr0_def calculateETA_def shortRoute_def mkRoute_def mkStep_def)

lemma processLocationUpdate_legacy:
  "showSearch (processLocationUpdate now loc p) = showSearch p"
  by (auto simp: processLocationUpdate_def Let_def endNavigation_def updateNavigationProgress_def
      setOffRoute_def split: option.splits prod.splits)

lemma farSample_off_route:
  "mode (navigationState (processLocationUpdate now' farSample (shortNavigationAt now))) = active"
  "isOffRoute (navigationState (processLocationUpdate now' farSample (shortNavigationAt now)))"
  "\<not> isRerouting (navigationState (processLocationUpdate now' farSample (shortNavigationAt now)))"
  "destination (navigationState (processLocationUpdate now' farSample (shortNavigationAt now))) =
     Some shortDestination"
  "route (navigationState (processLocationUpdate now' farSample (shortNavigationAt now))) =
     Some shortRoute"
  "showSearch (processLocationUpdate now' farSample (shortNavigationAt now)) = False"
proof -
  have r: "route (navigationState (shortNavigationAt now)) = Some shortRoute"
    and i: "currentStepIndex (navigationState (shortNavigationAt now)) < length (steps shortRoute)"
    by (simp_all add: shortNavigationAt_state shortRoute_steps)
  have a: "\<not> arrived (navigationState (shortNavigationAt now)) shortRoute
              (longitude farSample, latitude farSample)"
    by (simp add: arrived_def shortNavigationAt_state shortRoute_steps)
  have fs: "(longitude farSample, latitude farSample) = (0, 0.1)"
    by (simp add: farSample_def mkSample_def)
  from processLocationUpdate_keeps [OF r i a, of now']
  show "mode (navigationState (processLocationUpdate now' farSample (shortNavigationAt now))) = active"
    "\<not> isRerouting (navigationState (processLocationUpdate now' farSample (shortNavigationAt now)))"
    "destination (navigationState (processLocationUpdate now' farSample (shortNavigationAt now))) =
       Some shortDestination"
    "route (navigationState (processLocationUpdate now' farSample (shortNavigationAt now))) =
       Some shortRoute"
    by (simp_all add: shortNavigationAt_state)
  have "gt (distanceToRouteSegment (0, 0.1) (coordinates (geometry shortRoute))) OFF_ROUTE_THRESHOLD"
    using far_sample_distances distanceToRouteSegment_Min [of "coordinates (geometry shortRoute)" "(0, 0.1)"]
    by (simp add: shortRoute_steps OFF_ROUTE_THRESHOLD_def)
  with processLocationUpdate_offRoute [OF r i a, of now']
  show "isOffRoute (navigationState (processLocationUpdate now' farSample (shortNavigationAt now)))"
    by (simp add: fs)
  show "showSearch (processLocationUpdate now' farSample (shortNavigationAt now)) = False"
    by (simp add: processLocationUpdate_legacy shortNavigationAt_def startRendered_def startActiveNavigation_def
        setPreviewRoute_def initialProvider_def)
qed

lemma setPreviewRoute_mode:
  "mode (navigationState (setPreviewRoute now r d o' p)) = preview"
  "showSearch (setPreviewRoute now r d o' p) = showSearch p"
  by (simp_all add: setPreviewRoute_def)

lemma preview_step:
  assumes "view w = None"
  shows "step (SetPreviewRoute r d orig) w =
         w\<lparr>provider := setPreviewRoute (real (clock w)) r d orig (provider w)\<rparr>"
  using assms by (simp add: commit_def setPreviewRoute_mode)

lemma mount_far:
  assumes "position w = Some farSample" "provider w = shortNavigationAt now"
  shows "mount w =
         w\<lparr>view := Some ((freshView (mounts w + 1))\<lparr>lastProcessedLocationRef := Some farSample\<rparr>),
           provider := processLocationUpdate (real (clock w)) farSample (shortNavigationAt now),
           mounts := mounts w + 1\<rparr>"
  using assms
  by (simp add: mount_def Let_def debounceEffect_def shortNavigationAt_state watchEffect_def
      sameSample_def freshView_def)

lemma effects_far:
  assumes "position w = Some farSample"
    and "provider w = processLocationUpdate now' farSample (shortNavigationAt now)"
    and "view w = Some ((freshView n)\<lparr>lastProcessedLocationRef := Some farSample\<rparr>)"
  shows "effectsAfter (navigationState (shortNavigationAt now)) w =
         w\<lparr>view := Some (offRouteView n (clock w))\<rparr>"
proof -
  have d: "debounceEffect (clock w)
             (navigationState (processLocationUpdate now' farSample (shortNavigationAt now)))
             (Some farSample) ((freshView n)\<lparr>lastProcessedLocationRef := Some farSample\<rparr>) =
           offRouteView n (clock w)"
    by (simp add: debounceEffect_def farSample_off_route offRouteView_def freshView_def)
  have s: "watchEffect c (Some farSample) (offRouteView n (clock w), p) =
           (offRouteView n (clock w), p)" for c p
    by (simp add: watchEffect_def sameSample_def offRouteView_def)
  show ?thesis
    using assms
    by (simp add: effectsAfter_def Let_def farSample_off_route shortNavigationAt_state d s)
qed

lemma start_far:
  assumes "view w = None" "position w = Some farSample"
    and "provider w = setPreviewRoute now shortRoute shortDestination shortOrigin initialProvider"
  shows "step StartActive w =
         w\<lparr>view := Some (offRouteView (mounts w + 1) (clock w)),
           provider := processLocationUpdate (real (clock w)) farSample (shortNavigationAt now),
           mounts := mounts w + 1\<rparr>"
proof -
  let ?w = "w\<lparr>provider := shortNavigationAt now\<rparr>"
  have m: "mount ?w =
         ?w\<lparr>view := Some ((freshView (mounts w + 1))\<lparr>lastProcessedLocationRef := Some farSample\<rparr>),
           provider := processLocationUpdate (real (clock w)) farSample (shortNavigationAt now),
           mounts := mounts w + 1\<rparr>"
    using mount_far [of ?w now] assms(2) by simp
  have "step StartActive w = effectsAfter (navigationState (shortNavigationAt now)) (mount ?w)"
    using assms by (simp add: commit_def shortNavigationAt_def [symmetric] shortNavigationAt_state)
  also have "\<dots> = (mount ?w)\<lparr>view := Some (offRouteView (mounts w + 1) (clock w))\<rparr>"
    unfolding m using assms(2)
    by (subst effects_far [where now' = "real (clock w)" and n = "mounts w + 1"]) simp_all
  finally show ?thesis by (simp add: m)
qed

lemma begin_off_route:
  assumes "view w = None" "position w = Some farSample" "provider w = initialProvider"
  shows "run beginSession w =
         w\<lparr>view := Some (offRouteView (mounts w + 1) (clock w)),
           provider := processLocationUpdate (real (clock w)) farSample
                          (shortNavigationAt (real (clock w))),
           mounts := mounts w + 1\<rparr>"
proof -
  let ?w = "w\<lparr>provider :=
      setPreviewRoute (real (clock w)) shortRoute shortDestination shortOrigin initialProvider\<rparr>"
  have "run beginSession w = step StartActive ?w"
    using preview_step [OF assms(1)] assms(3) by (simp add: run_def beginSession_def)
  also have "\<dots> = ?w\<lparr>view := Some (offRouteView (mounts w + 1) (clock w)),
           provider := processLocationUpdate (real (clock w)) farSample
                          (shortNavigationAt (real (clock w))),
           mounts := mounts w + 1\<rparr>"
    using start_far [of ?w "real (clock w)"] assms(1,2) by simp
  finally show ?thesis by simp
qed


lemma run_Cons: "run (e # es) w = run es (step e w)"
  by (simp add: run_def)

lemma run_append: "run (es @ es') w = run es' (run es w)"
  by (simp add: run_def)

lemma run_Nil: "run [] w = w"
  by (simp add: run_def)

lemma fire_far:
  assumes "view w = Some (offRouteView n c)" and "c + 3000 \<le> clock w"
    and "provider w = processLocationUpdate now' farSample (shortNavigationAt now)"
    and "token w \<noteq> []"
  shows "step TimerFire w =
         w\<lparr>view := Some (awaitingView n),
           provider := setRerouting True (provider w),
           calls := calls w @ [((0, 0.1), sel_coordinates shortDestination)],
           inflight := inflight w @ [n]\<rparr>"
proof -
  let ?p = "processLocationUpdate now' farSample (shortNavigationAt now)"
  let ?t = "\<lparr>armedAt = c, timerLocation = farSample, timerDestination = Some shortDestination\<rparr>"
  have h: "handleRerouteStart (token w) (Some shortDestination) (0, 0.1)
             ((offRouteView n c)\<lparr>rerouteTimeoutRef := None\<rparr>, ?p) =
           ((awaitingView n, setRerouting True ?p), Some ((0, 0.1), sel_coordinates shortDestination))"
    using assms(4) by (simp add: handleRerouteStart_def Let_def offRouteView_def awaitingView_def)
  have fs: "(longitude farSample, latitude farSample) = (0, 0.1)"
    by (simp add: farSample_def mkSample_def)
  have ov: "rerouteTimeoutRef (offRouteView n c) = Some ?t"
    "instanceId (offRouteView n c) = n"
    by (simp_all add: offRouteView_def)
  have tc: "timerCallback (offRouteView n c) ?t w =
        w\<lparr>view := Some (awaitingView n), provider := setRerouting True ?p,
          calls := calls w @ [((0, 0.1), sel_coordinates shortDestination)],
          inflight := inflight w @ [n]\<rparr>"
    using assms(3) by (simp add: timerCallback_def Let_def fs h ov)
  have sr: "navigationState (setRerouting True ?p) = (navigationState ?p)\<lparr>isRerouting := True\<rparr>"
    by (simp add: setRerouting_def Let_def)
  have d: "debounceEffect k ((navigationState ?p)\<lparr>isRerouting := True\<rparr>) l (awaitingView n) =
           awaitingView n" for k l
    by (simp add: debounceEffect_def awaitingView_def)
  have ea: "effectsAfter (navigationState ?p)
        (w\<lparr>view := Some (awaitingView n), provider := setRerouting True ?p,
          calls := calls w @ [((0, 0.1), sel_coordinates shortDestination)],
          inflight := inflight w @ [n]\<rparr>) =
        w\<lparr>view := Some (awaitingView n), provider := setRerouting True ?p,
          calls := calls w @ [((0, 0.1), sel_coordinates shortDestination)],
          inflight := inflight w @ [n]\<rparr>"
    by (simp add: effectsAfter_def Let_def sr farSample_off_route d)
  have "step TimerFire w = effectsAfter (navigationState ?p) (timerCallback (offRouteView n c) ?t w)"
    using assms(1,2,3) by (simp add: REROUTE_DELAY_def ov)
  then show ?thesis by (simp add: tc ea assms(3))
qed

lemma end_step:
  assumes "view w = Some v"
  shows "step End w = w\<lparr>provider := endNavigation (provider w), view := None\<rparr>"
  using assms
  by (simp add: commit_def effectsAfter_def Let_def endNavigation_def initialNavigationState_def)

lemma endNavigation_initial:
  "showSearch p = False \<Longrightarrow> endNavigation p = initialProvider"
  by (cases p) (simp add: endNavigation_def initialProvider_def)

lemma armed_world:
  "run (Position farSample # beginSession) (initWorld tok) =
     (initWorld tok)\<lparr>position := Some farSample, view := Some (offRouteView 1 0),
        provider := processLocationUpdate 0 farSample (shortNavigationAt 0), mounts := 1\<rparr>"
proof -
  have "step (Position farSample) (initWorld tok) = (initWorld tok)\<lparr>position := Some farSample\<rparr>"
    by (simp add: initWorld_def)
  then show ?thesis
    using begin_off_route [of "(initWorld tok)\<lparr>position := Some farSample\<rparr>"]
    by (simp add: run_Cons) (simp add: initWorld_def)
qed

lemma first_world:
  assumes "tok \<noteq> []"
  shows "run firstSession (initWorld tok) =
     (initWorld tok)\<lparr>position := Some farSample, view := Some (awaitingView 1),
        provider := setRerouting True (processLocationUpdate 0 farSample (shortNavigationAt 0)),
        mounts := 1, clock := 3000,
        calls := [((0, 0.1), sel_coordinates shortDestination)], inflight := [1]\<rparr>"
proof -
  let ?a = "(initWorld tok)\<lparr>position := Some farSample, view := Some (offRouteView 1 0),
        provider := processLocationUpdate 0 farSample (shortNavigationAt 0), mounts := 1\<rparr>"
  have "run firstSession (initWorld tok) = step TimerFire (step (Tick 3000) ?a)"
    unfolding firstSession_def
    by (simp only: append_Cons [symmetric] run_append armed_world) (simp add: run_Cons run_Nil)
  also have "step (Tick 3000) ?a = ?a\<lparr>clock := 3000\<rparr>"
    by (simp add: initWorld_def)
  also have "step TimerFire (?a\<lparr>clock := 3000\<rparr>) =
     (?a\<lparr>clock := 3000\<rparr>)\<lparr>view := Some (awaitingView 1),
        provider := setRerouting True (provider (?a\<lparr>clock := 3000\<rparr>)),
        calls := calls (?a\<lparr>clock := 3000\<rparr>) @ [((0, 0.1), sel_coordinates shortDestination)],
        inflight := inflight (?a\<lparr>clock := 3000\<rparr>) @ [1]\<rparr>"
    using assms by (intro fire_far [where c = 0 and now' = 0 and now = 0]) (simp_all add: initWorld_def)
  finally show ?thesis by (simp add: initWorld_def)
qed

lemma second_world:
  assumes "tok \<noteq> []"
  shows "run secondSession (initWorld tok) =
     (initWorld tok)\<lparr>position := Some farSample, view := Some (offRouteView 2 3000),
        provider := processLocationUpdate 3000 farSample (shortNavigationAt 3000),
        mounts := 2, clock := 6000,
        calls := [((0, 0.1), sel_coordinates shortDestination)], inflight := [1]\<rparr>"
proof -
  let ?f = "run firstSession (initWorld tok)"
  let ?e = "(initWorld tok)\<lparr>position := Some farSample, view := None,
        provider := initialProvider,
        mounts := 1, clock := 3000,
        calls := [((0, 0.1), sel_coordinates shortDestination)], inflight := [1]\<rparr>"
  have e: "step End ?f = ?e"
    unfolding first_world [OF assms]
    by (subst end_step [where v = "awaitingView 1"])
      (simp_all add: endNavigation_initial setRerouting_def Let_def
        farSample_off_route initWorld_def)
  have b: "run beginSession ?e =
      ?e\<lparr>view := Some (offRouteView (mounts ?e + 1) (clock ?e)),
           provider := processLocationUpdate (real (clock ?e)) farSample
                          (shortNavigationAt (real (clock ?e))),
           mounts := mounts ?e + 1\<rparr>"
    by (rule begin_off_route) simp_all
  have "run secondSession (initWorld tok) = step (Tick 3000) (run beginSession (step End ?f))"
    unfolding secondSession_def by (simp add: run_append run_Cons run_Nil)
  also have "\<dots> = step (Tick 3000)
      (?e\<lparr>view := Some (offRouteView (mounts ?e + 1) (clock ?e)),
           provider := processLocationUpdate (real (clock ?e)) farSample
                          (shortNavigationAt (real (clock ?e))),
           mounts := mounts ?e + 1\<rparr>)"
    by (simp only: e b)
  also have "\<dots> = (initWorld tok)\<lparr>position := Some farSample, view := Some (offRouteView 2 3000),
        provider := processLocationUpdate 3000 farSample (shortNavigationAt 3000),
        mounts := 2, clock := 6000,
        calls := [((0, 0.1), sel_coordinates shortDestination)], inflight := [1]\<rparr>"
    by (simp add: initWorld_def numeral_2_eq_2)
  finally show ?thesis .
qed

section \<open>The duplicate guard\<close>

text \<open>
  Counterexample to C7 as stated. The last processed sample has timestamp 10; a sample
  with the older timestamp 5, taken at the first turn of \<open>shortRoute\<close>, is processed: it
  advances the step index and becomes the last processed sample.
\<close>

theorem older_sample_is_processed:
  "timestamp (mkSample (0, 0.0099) 5) < timestamp (mkSample (0, 0) 10) \<and>
   lastProcessedLocationRef staleView = Some (mkSample (0, 0) 10) \<and>
   currentStepIndex (navigationState shortNavigation) = 0 \<and>
   currentStepIndex (navigationState
     (snd (watchEffect 0 (Some (mkSample (0, 0.0099) 5)) (staleView, shortNavigation)))) = 1 \<and>
   lastProcessedLocationRef
     (fst (watchEffect 0 (Some (mkSample (0, 0.0099) 5)) (staleView, shortNavigation))) =
     Some (mkSample (0, 0.0099) 5)"
proof -
  have r: "route (navigationState shortNavigation) = Some shortRoute"
    and i: "currentStepIndex (navigationState shortNavigation) < length (steps shortRoute)"
    by (simp_all add: shortNavigation_state shortRoute_steps)
  from processLocationUpdate_index [OF r i, of 0 "mkSample (0, 0.0099) 5"]
    shortNavigation_not_arrived at_turn_distance
  have "currentStepIndex (navigationState
          (processLocationUpdate 0 (mkSample (0, 0.0099) 5) shortNavigation)) = 1"
    by (simp add: shortNavigation_state shortRoute_steps mkSample_def mkStep_def
        STEP_ADVANCE_THRESHOLD_def)
  then show ?thesis
    by (simp add: watchEffect_def sameSample_def staleView_def freshView_def mkSample_def
        shortNavigation_state)
qed

lemma duplicate_delivery:
  assumes v: "view w = Some v" and m: "mode (navigationState (provider w)) = active"
    and d: "sameSample (lastProcessedLocationRef v) loc"
  shows "step (Position loc) w =
         w\<lparr>position := Some loc,
           view := Some (debounceEffect (clock w) (navigationState (provider w)) (Some loc) v)\<rparr>"
proof -
  have "watchEffect now (Some loc)
          (debounceEffect (clock w) (navigationState (provider w)) (Some loc) v, provider w) =
        (debounceEffect (clock w) (navigationState (provider w)) (Some loc) v, provider w)" for now
    by (rule watchEffect_same) (simp add: debounceEffect_fields d)
  then show ?thesis
    using v m by (simp add: Let_def effectsAfter_def)
qed

text \<open>
  C7, as amended. A sample with the timestamp, latitude and longitude of the last
  processed one is not processed: the location effect returns with refs and state as
  they are, and nothing is raised. When such a sample is delivered to the mounted view of
  an active navigation, the provider state, the requests made and outstanding, and the
  refs \<open>lastProcessedLocationRef\<close> and \<open>isReroutingRef\<close> stay as they are; the debounce
  effect runs on the new \<open>currentLocation\<close>, so that the reroute timer is cleared and,
  when the view is off route and not rerouting, armed anew at the clock of the delivery.
  A sample with an older timestamp is not ignored: it is recorded and processed like any
  other sample.
\<close>

theorem duplicate_sample_is_ignored:
  "(lastProcessedLocationRef v = Some l \<and> timestamp l = timestamp loc \<and>
    latitude l = latitude loc \<and> longitude l = longitude loc \<longrightarrow>
      watchEffect now (Some loc) (v, p) = (v, p)) \<and>
   (lastProcessedLocationRef v = Some l \<and> timestamp l = timestamp loc \<and>
    latitude l = latitude loc \<and> longitude l = longitude loc \<and>
    view w = Some v \<and> mode (navigationState (provider w)) = active \<longrightarrow>
      provider (step (Position loc) w) = provider w \<and>
      calls (step (Position loc) w) = calls w \<and>
      inflight (step (Position loc) w) = inflight w \<and>
      position (step (Position loc) w) = Some loc \<and>
      (\<exists>v'. view (step (Position loc) w) = Some v' \<and>
            lastProcessedLocationRef v' = Some l \<and>
            isReroutingRef v' = isReroutingRef v \<and>
            instanceId v' = instanceId v \<and>
            rerouteTimeoutRef v' =
              (if isOffRoute (navigationState (provider w)) \<and>
                  \<not> isRerouting (navigationState (provider w))
               then Some \<lparr>armedAt = clock w, timerLocation = loc,
                          timerDestination = destination (navigationState (provider w))\<rparr>
               else None))) \<and>
   (lastProcessedLocationRef v = Some l \<and> timestamp loc < timestamp l \<longrightarrow>
      watchEffect now (Some loc) (v, p) =
        (v\<lparr>lastProcessedLocationRef := Some loc\<rparr>, processLocationUpdate now loc p))"
proof (intro conjI impI)
  assume "lastProcessedLocationRef v = Some l \<and> timestamp l = timestamp loc \<and>
    latitude l = latitude loc \<and> longitude l = longitude loc"
  then show "watchEffect now (Some loc) (v, p) = (v, p)"
    by (simp add: watchEffect_def sameSample_def)
next
  assume "lastProcessedLocationRef v = Some l \<and> timestamp loc < timestamp l"
  then show "watchEffect now (Some loc) (v, p) =
        (v\<lparr>lastProcessedLocationRef := Some loc\<rparr>, processLocationUpdate now loc p)"
    by (simp add: watchEffect_def sameSample_def)
next
  assume h: "lastProcessedLocationRef v = Some l \<and> timestamp l = timestamp loc \<and>
    latitude l = latitude loc \<and> longitude l = longitude loc \<and>
    view w = Some v \<and> mode (navigationState (provider w)) = active"
  then have d: "sameSample (lastProcessedLocationRef v) loc"
    by (simp add: sameSample_def)
  from h have v: "view w = Some v" and m: "mode (navigationState (provider w)) = active"
    by simp_all
  note st = duplicate_delivery [OF v m d]
  show "provider (step (Position loc) w) = provider w"
    and "calls (step (Position loc) w) = calls w"
    and "inflight (step (Position loc) w) = inflight w"
    and "position (step (Position loc) w) = Some loc"
    unfolding st by simp_all
  show "\<exists>v'. view (step (Position loc) w) = Some v' \<and>
            lastProcessedLocationRef v' = Some l \<and>
            isReroutingRef v' = isReroutingRef v \<and>
            instanceId v' = instanceId v \<and>
            rerouteTimeoutRef v' =
              (if isOffRoute (navigationState (provider w)) \<and>
                  \<not> isRerouting (navigationState (provider w))
               then Some \<lparr>armedAt = clock w, timerLocation = loc,
                          timerDestination = destination (navigationState (provider w))\<rparr>
               else None)"
    unfolding st using h by (simp add: debounceEffect_fields debounceEffect_timer)
qed

lemma armedWorld_fields:
  "view armedWorld = Some (offRouteView 1 0)"
  "clock armedWorld = 1000"
  "provider armedWorld = processLocationUpdate 0 farSample (shortNavigationAt 0)"
  "calls armedWorld = []"
  unfolding armedWorld_def armed_world by (simp_all add: initWorld_def)

text \<open>
  C7 on the stale view and on the page one second into the first session. The stale
  view ignores the sample of time 10 and processes the sample of time 5. On the page,
  delivering \<open>farSample\<close> again leaves the provider state and the request log as they
  are and moves the pending timer from clock 0 to clock 1000.
\<close>

theorem duplicate_sample_is_ignored_witness:
  "watchEffect 0 (Some (mkSample (0, 0) 10)) (staleView, shortNavigation) =
     (staleView, shortNavigation) \<and>
   watchEffect 0 (Some (mkSample (0, 0.0099) 5)) (staleView, shortNavigation) =
     (staleView\<lparr>lastProcessedLocationRef := Some (mkSample (0, 0.0099) 5)\<rparr>,
      processLocationUpdate 0 (mkSample (0, 0.0099) 5) shortNavigation) \<and>
   pendingTimer armedWorld =
     Some \<lparr>armedAt = 0, timerLocation = farSample, timerDestination = Some shortDestination\<rparr> \<and>
   provider (step (Position farSample) armedWorld) = provider armedWorld \<and>
   calls (step (Position farSample) armedWorld) = [] \<and>
   pendingTimer (step (Position farSample) armedWorld) =
     Some \<lparr>armedAt = 1000, timerLocation = farSample, timerDestination = Some shortDestination\<rparr>"
proof -
  note dup = duplicate_sample_is_ignored
  from dup [of staleView "mkSample (0, 0) 10" "mkSample (0, 0) 10" 0 shortNavigation]
  have a: "watchEffect 0 (Some (mkSample (0, 0) 10)) (staleView, shortNavigation) =
     (staleView, shortNavigation)"
    by (simp add: staleView_def freshView_def)
  from dup [of staleView "mkSample (0, 0) 10" "mkSample (0, 0.0099) 5" 0 shortNavigation]
  have b: "watchEffect 0 (Some (mkSample (0, 0.0099) 5)) (staleView, shortNavigation) =
     (staleView\<lparr>lastProcessedLocationRef := Some (mkSample (0, 0.0099) 5)\<rparr>,
      processLocationUpdate 0 (mkSample (0, 0.0099) 5) shortNavigation)"
    by (simp add: staleView_def freshView_def mkSample_def)
  have t0: "pendingTimer armedWorld =
     Some \<lparr>armedAt = 0, timerLocation = farSample, timerDestination = Some shortDestination\<rparr>"
    by (simp add: pendingTimer_def armedWorld_fields offRouteView_def)
  have h: "lastProcessedLocationRef (offRouteView 1 0) = Some farSample \<and>
      timestamp farSample = timestamp farSample \<and> latitude farSample = latitude farSample \<and>
      longitude farSample = longitude farSample \<and>
      view armedWorld = Some (offRouteView 1 0) \<and>
      mode (navigationState (provider armedWorld)) = active"
    by (simp add: armedWorld_fields farSample_off_route) (simp add: offRouteView_def)
  note page = dup [where v = "offRouteView 1 0" and l = farSample and loc = farSample
      and w = armedWorld, THEN conjunct2, THEN conjunct1, rule_format, OF h]
  from page have c1: "provider (step (Position farSample) armedWorld) = provider armedWorld"
    by blast
  from page have "calls (step (Position farSample) armedWorld) = calls armedWorld"
    by blast
  then have c2: "calls (step (Position farSample) armedWorld) = []"
    by (simp only: armedWorld_fields)
  from page obtain v' where v': "view (step (Position farSample) armedWorld) = Some v'"
    "rerouteTimeoutRef v' =
       (if isOffRoute (navigationState (provider armedWorld)) \<and>
           \<not> isRerouting (navigationState (provider armedWorld))
        then Some \<lparr>armedAt = clock armedWorld, timerLocation = farSample,
                   timerDestination = destination (navigationState (provider armedWorld))\<rparr>
        else None)"
    by blast
  have t1: "pendingTimer (step (Position farSample) armedWorld) =
     Some \<lparr>armedAt = 1000, timerLocation = farSample, timerDestination = Some shortDestination\<rparr>"
    unfolding pendingTimer_def v'(1)
    by (simp add: v'(2) armedWorld_fields farSample_off_route)
  from a b t0 c1 c2 t1 show ?thesis by blast
qed

section \<open>Debounced rerouting\<close>

text \<open>
  Counterexample to C2 as stated. The first session makes its request at clock 3000 and
  is ended before the request settles. A second session is begun, is off route as well,
  and after three more seconds its timer fires: a second request is made while the first
  one is still in flight. The guard \<open>isReroutingRef\<close> belongs to the view instance, and
  the second session has a new one.
\<close>

theorem second_request_while_first_in_flight:
  "inflight (run secondSession (initWorld ''pk.token'')) = [1] \<and>
   length (calls (run secondSession (initWorld ''pk.token''))) = 1 \<and>
   inflight (step TimerFire (run secondSession (initWorld ''pk.token''))) = [1, 2] \<and>
   length (calls (step TimerFire (run secondSession (initWorld ''pk.token'')))) = 2"
proof -
  let ?s = "run secondSession (initWorld ''pk.token'')"
  have s: "?s = (initWorld ''pk.token'')\<lparr>position := Some farSample, view := Some (offRouteView 2 3000),
        provider := processLocationUpdate 3000 farSample (shortNavigationAt 3000),
        mounts := 2, clock := 6000,
        calls := [((0, 0.1), sel_coordinates shortDestination)], inflight := [1]\<rparr>"
    by (rule second_world) simp
  have "step TimerFire ?s =
        ?s\<lparr>view := Some (awaitingView 2),
           provider := setRerouting True (provider ?s),
           calls := calls ?s @ [((0, 0.1), sel_coordinates shortDestination)],
           inflight := inflight ?s @ [2]\<rparr>"
    unfolding s
    by (rule fire_far [where c = 3000 and now' = 3000 and now = 3000])
      (simp_all add: initWorld_def)
  then show ?thesis unfolding s by simp
qed

text \<open>
  C2, as amended. Along every run of the page from its initial state:
  whenever the off-route flag is false no debounce timer is pending (a flag that flips
  back cancels the timer, and no request comes of it); and a request to the routing
  collaborator is made only by a timer that fires, after the off-route flag has been true
  in every state of the run for at least 3000 ms, while the mounted view has no request
  of its own in flight; exactly one request is made then. A request still in flight from
  an earlier view does not count.
\<close>

theorem reroute_request_debounced:
  "(\<forall>i \<le> length es. \<not> offRoute (run (take i es) (initWorld tok)) \<longrightarrow>
       pendingTimer (run (take i es) (initWorld tok)) = None) \<and>
   (\<forall>k < length es.
       calls (run (take (Suc k) es) (initWorld tok)) \<noteq> calls (run (take k es) (initWorld tok)) \<longrightarrow>
         es ! k = TimerFire \<and>
         (\<exists>j \<le> k. clock (run (take j es) (initWorld tok)) + 3000
                      \<le> clock (run (take k es) (initWorld tok)) \<and>
                   (\<forall>i. j \<le> i \<and> i \<le> k \<longrightarrow> offRoute (run (take i es) (initWorld tok)))) \<and>
         (\<exists>v. view (run (take k es) (initWorld tok)) = Some v \<and> \<not> isReroutingRef v \<and>
               instanceId v \<notin> set (inflight (run (take k es) (initWorld tok)))) \<and>
         length (calls (run (take (Suc k) es) (initWorld tok))) =
           length (calls (run (take k es) (initWorld tok))) + 1)"
proof (intro conjI allI impI)
  fix i
  assume "\<not> offRoute (run (take i es) (initWorld tok))"
  moreover have "wellFormed (run (take i es) (initWorld tok))"
    by (rule run_wellFormed) (rule initWorld_wellFormed)
  ultimately show "pendingTimer (run (take i es) (initWorld tok)) = None"
    using pendingTimer_offRoute by (cases "pendingTimer (run (take i es) (initWorld tok))") auto
next
  fix k
  let ?s = "\<lambda>i. run (take i es) (initWorld tok)"
  assume k: "k < length es" and c: "calls (?s (Suc k)) \<noteq> calls (?s k)"
  have st: "?s (Suc k) = step (es ! k) (?s k)" using k by (rule run_take_Suc)
  have wf: "wellFormed (?s i)" for i
    by (rule run_wellFormed) (rule initWorld_wellFormed)
  from c have "calls (step (es ! k) (?s k)) \<noteq> calls (?s k)" by (simp add: st)
  from step_calls [OF this] obtain v t and d :: SelectedLocation where
    e: "es ! k = TimerFire" and v: "view (?s k) = Some v" and t: "rerouteTimeoutRef v = Some t"
    and due: "armedAt t + REROUTE_DELAY \<le> clock (?s k)" and nr: "\<not> isReroutingRef v"
    and app: "calls (step (es ! k) (?s k)) =
      calls (?s k) @ [((longitude (timerLocation t), latitude (timerLocation t)), sel_coordinates d)]"
    by auto
  show "es ! k = TimerFire" by (rule e)
  have p: "pendingTimer (?s k) = Some t" using v t by (simp add: pendingTimer_def)
  have none: "pendingTimer (initWorld tok) = None"
    by (simp add: pendingTimer_def initWorld_def)
  have "k \<le> length es" using k by simp
  from timer_history [OF initWorld_wellFormed none this p]
  obtain j where j: "j \<le> k" "clock (?s j) = armedAt t"
    "\<forall>i. j \<le> i \<and> i \<le> k \<longrightarrow> pendingTimer (?s i) = Some t"
    by auto
  have "\<forall>i. j \<le> i \<and> i \<le> k \<longrightarrow> offRoute (?s i)"
    using j(3) pendingTimer_offRoute [OF wf] by blast
  with j(1,2) due
  show "\<exists>j \<le> k. clock (?s j) + 3000 \<le> clock (?s k) \<and> (\<forall>i. j \<le> i \<and> i \<le> k \<longrightarrow> offRoute (?s i))"
    by (intro exI [of _ j]) (simp add: REROUTE_DELAY_def)
  from wellFormed_parts(3) [OF wf v] nr
  show "\<exists>v. view (?s k) = Some v \<and> \<not> isReroutingRef v \<and> instanceId v \<notin> set (inflight (?s k))"
    using v by (auto simp: viewOk_def)
  show "length (calls (?s (Suc k))) = length (calls (?s k)) + 1"
    using app by (simp add: st)
qed

lemma firstSession_prefix:
  "length firstSession = 5"
  "firstSession ! 4 = TimerFire"
  "take (Suc 4) firstSession = firstSession"
  "take 4 firstSession = (Position farSample # beginSession) @ [Tick 3000]"
  "take 3 firstSession = Position farSample # beginSession"
  by (simp_all add: firstSession_def beginSession_def)

text \<open>
  C2 on the first session: its fifth event is the timer firing, which makes the one
  request, after 3000 ms off route; in the initial state the flag is false and no timer
  is pending.
\<close>

theorem reroute_request_debounced_witness:
  "firstSession ! 4 = TimerFire \<and>
   calls (run (take 4 firstSession) (initWorld ''pk.token'')) = [] \<and>
   length (calls (run (take 5 firstSession) (initWorld ''pk.token''))) = 1 \<and>
   (\<exists>j \<le> 4. clock (run (take j firstSession) (initWorld ''pk.token'')) + 3000
                 \<le> clock (run (take 4 firstSession) (initWorld ''pk.token'')) \<and>
      (\<forall>i. j \<le> i \<and> i \<le> 4 \<longrightarrow> offRoute (run (take i firstSession) (initWorld ''pk.token'')))) \<and>
   \<not> offRoute (run (take 0 firstSession) (initWorld ''pk.token'')) \<and>
   pendingTimer (run (take 0 firstSession) (initWorld ''pk.token'')) = None"
proof -
  let ?w = "initWorld ''pk.token''"
  have c4: "calls (run (take 4 firstSession) ?w) = []"
    unfolding firstSession_prefix(4) run_append armed_world
    by (simp add: run_Cons run_Nil initWorld_def)
  have c5: "calls (run (take (Suc 4) firstSession) ?w) = [((0, 0.1), sel_coordinates shortDestination)]"
    unfolding firstSession_prefix(3) by (subst first_world) (simp_all add: initWorld_def)
  have n0: "\<not> offRoute (run (take 0 firstSession) ?w)"
    by (simp add: run_Nil offRoute_def initWorld_def initialProvider_def initialNavigationState_def)
  have k: "(4::nat) < length firstSession" "(0::nat) \<le> length firstSession"
    by (simp_all add: firstSession_prefix)
  from c4 c5 have ne: "calls (run (take (Suc 4) firstSession) ?w) \<noteq> calls (run (take 4 firstSession) ?w)"
    by simp
  note deb = reroute_request_debounced [of firstSession "''pk.token''"]
  from deb k(2) n0 have p0: "pendingTimer (run (take 0 firstSession) ?w) = None" by blast
  from deb k(1) ne have
    "\<exists>j \<le> 4. clock (run (take j firstSession) ?w) + 3000 \<le> clock (run (take 4 firstSession) ?w) \<and>
       (\<forall>i. j \<le> i \<and> i \<le> 4 \<longrightarrow> offRoute (run (take i firstSession) ?w))"
    by blast
  with c4 c5 n0 p0 show ?thesis by (simp add: firstSession_prefix)
qed

section \<open>Ending a session\<close>

lemma ended_world:
  assumes "tok \<noteq> []"
  shows "run endedSession (initWorld tok) =
     (initWorld tok)\<lparr>position := Some farSample, view := None,
        provider := initialProvider,
        mounts := 1, clock := 3000,
        calls := [((0, 0.1), sel_coordinates shortDestination)], inflight := [1]\<rparr>"
proof -
  have "run endedSession (initWorld tok) = step End (run firstSession (initWorld tok))"
    by (simp add: endedSession_def run_append run_Cons run_Nil)
  also have "\<dots> = (initWorld tok)\<lparr>position := Some farSample, view := None,
        provider := initialProvider,
        mounts := 1, clock := 3000,
        calls := [((0, 0.1), sel_coordinates shortDestination)], inflight := [1]\<rparr>"
    unfolding first_world [OF assms]
    by (subst end_step [where v = "awaitingView 1"])
      (simp_all add: endNavigation_initial setRerouting_def Let_def
        farSample_off_route initWorld_def)
  finally show ?thesis .
qed

lemma response_without_view:
  assumes "view w = None" "mode (navigationState (provider w)) \<noteq> active" "i < length (inflight w)"
  shows "step (Response i res) w =
         w\<lparr>provider := handleRerouteResume (real (clock w)) res (provider w),
           inflight := take i (inflight w) @ drop (Suc i) (inflight w)\<rparr>"
proof -
  have "mode (navigationState (handleRerouteResume now res p)) = mode (navigationState p)" for now p
    by (simp add: handleRerouteResume_def setRerouting_def updateRoute_def Let_def
        split: RouteResult.splits option.splits)
  with assms show ?thesis by (simp add: commit_def)
qed

text \<open>
  Counterexample to C4 as stated. The first session is ended with its request
  outstanding: the state is the initial one and no timer is pending. When the request
  then resolves with a route, \<open>updateRoute\<close> is applied all the same: the state holds
  that route and is no longer the initial state.
\<close>

theorem late_response_is_applied:
  "navigationState (provider (run endedSession (initWorld ''pk.token''))) = initialNavigationState \<and>
   pendingTimer (run endedSession (initWorld ''pk.token'')) = None \<and>
   inflight (run endedSession (initWorld ''pk.token'')) = [1] \<and>
   route (navigationState (provider
     (step (Response 0 (Resolved (Some shortRoute)))
        (run endedSession (initWorld ''pk.token''))))) = Some shortRoute \<and>
   navigationState (provider
     (step (Response 0 (Resolved (Some shortRoute)))
        (run endedSession (initWorld ''pk.token'')))) \<noteq> initialNavigationState"
proof -
  let ?w = "run endedSession (initWorld ''pk.token'')"
  have w: "?w = (initWorld ''pk.token'')\<lparr>position := Some farSample, view := None,
        provider := initialProvider,
        mounts := 1, clock := 3000,
        calls := [((0, 0.1), sel_coordinates shortDestination)], inflight := [1]\<rparr>"
    by (rule ended_world) simp
  have r: "step (Response 0 (Resolved (Some shortRoute))) ?w =
      ?w\<lparr>provider := handleRerouteResume (real (clock ?w)) (Resolved (Some shortRoute)) (provider ?w),
         inflight := take 0 (inflight ?w) @ drop (Suc 0) (inflight ?w)\<rparr>"
    by (rule response_without_view)
      (simp_all add: w initialProvider_def initialNavigationState_def)
  have "route (navigationState (provider (step (Response 0 (Resolved (Some shortRoute))) ?w))) =
        Some shortRoute"
    unfolding r by (simp add: handleRerouteResume_def setRerouting_def updateRoute_def Let_def)
  moreover have "navigationState (provider ?w) = initialNavigationState"
    "pendingTimer ?w = None" "inflight ?w = [1]"
    by (simp_all add: w initialProvider_def pendingTimer_def)
  ultimately show ?thesis by (auto simp: initialNavigationState_def)
qed

text \<open>
  C4, as amended. Ending the session of a mounted view resets the navigation state to
  the initial one. In every state the page can reach in which the navigation is not
  active, no view is mounted and no debounce timer is pending. A response that resolves
  with a route in such a state is not discarded: the provider state becomes that of
  \<open>updateRoute\<close> followed by \<open>setRerouting False\<close>, so it holds the new route, and
  the mode stays what it was.
\<close>

theorem ended_session_keeps_no_timer:
  "(view (run es (initWorld tok)) \<noteq> None \<longrightarrow>
      navigationState (provider (step End (run es (initWorld tok)))) = initialNavigationState) \<and>
   (mode (navigationState (provider (run es (initWorld tok)))) \<noteq> active \<longrightarrow>
      view (run es (initWorld tok)) = None \<and>
      pendingTimer (run es (initWorld tok)) = None \<and>
      (\<forall>i < length (inflight (run es (initWorld tok))).
         provider (step (Response i (Resolved (Some r))) (run es (initWorld tok))) =
           setRerouting False
             (updateRoute (real (clock (run es (initWorld tok)))) r
                (provider (run es (initWorld tok)))) \<and>
         route (navigationState
           (provider (step (Response i (Resolved (Some r))) (run es (initWorld tok))))) = Some r \<and>
         mode (navigationState
           (provider (step (Response i (Resolved (Some r))) (run es (initWorld tok))))) =
           mode (navigationState (provider (run es (initWorld tok))))))"
proof (intro conjI impI allI)
  let ?w = "run es (initWorld tok)"
  have wf: "wellFormed ?w" by (rule run_wellFormed) (rule initWorld_wellFormed)
  {
    assume "view ?w \<noteq> None"
    then obtain v where v: "view ?w = Some v" by auto
    from end_step [OF this]
    show "navigationState (provider (step End ?w)) = initialNavigationState"
      by (simp add: endNavigation_def)
  }
  assume m: "mode (navigationState (provider ?w)) \<noteq> active"
  show nv: "view ?w = None"
  proof (cases "view ?w")
    case (Some v)
    from wellFormed_parts(3) [OF wf Some] m show ?thesis by (simp add: viewOk_def)
  qed simp
  then show "pendingTimer ?w = None" by (simp add: pendingTimer_def)
  fix i
  assume i: "i < length (inflight ?w)"
  note rs = response_without_view [OF nv m i, of "Resolved (Some r)"]
  show "provider (step (Response i (Resolved (Some r))) ?w) =
        setRerouting False (updateRoute (real (clock ?w)) r (provider ?w))"
    unfolding rs by (simp add: handleRerouteResume_def)
  show "route (navigationState (provider (step (Response i (Resolved (Some r))) ?w))) = Some r"
    unfolding rs by (simp add: handleRerouteResume_def setRerouting_def updateRoute_def Let_def)
  show "mode (navigationState (provider (step (Response i (Resolved (Some r))) ?w))) =
        mode (navigationState (provider ?w))"
    unfolding rs by (simp add: handleRerouteResume_def setRerouting_def updateRoute_def Let_def)
qed

text \<open>
  C4 on the ended first session: the view was mounted before the end, afterwards the mode
  is idle with no timer and one request outstanding, and the late response leaves
  \<open>shortRoute\<close> in the idle state.
\<close>

theorem ended_session_keeps_no_timer_witness:
  "view (run firstSession (initWorld ''pk.token'')) \<noteq> None \<and>
   run endedSession (initWorld ''pk.token'') = step End (run firstSession (initWorld ''pk.token'')) \<and>
   mode (navigationState (provider (run endedSession (initWorld ''pk.token'')))) = idle \<and>
   pendingTimer (run endedSession (initWorld ''pk.token'')) = None \<and>
   length (inflight (run endedSession (initWorld ''pk.token''))) = 1 \<and>
   route (navigationState (provider
     (step (Response 0 (Resolved (Some shortRoute)))
        (run endedSession (initWorld ''pk.token''))))) = Some shortRoute \<and>
   mode (navigationState (provider
     (step (Response 0 (Resolved (Some shortRoute)))
        (run endedSession (initWorld ''pk.token''))))) = idle"
proof -
  let ?f = "run firstSession (initWorld ''pk.token'')"
  let ?w = "run endedSession (initWorld ''pk.token'')"
  have w: "?w = (initWorld ''pk.token'')\<lparr>position := Some farSample, view := None,
        provider := initialProvider,
        mounts := 1, clock := 3000,
        calls := [((0, 0.1), sel_coordinates shortDestination)], inflight := [1]\<rparr>"
    by (rule ended_world) simp
  have v: "view ?f \<noteq> None"
    by (subst first_world) simp_all
  have e: "?w = step End ?f"
    by (simp add: endedSession_def run_append run_Cons run_Nil)
  have m: "mode (navigationState (provider ?w)) = idle" "length (inflight ?w) = 1"
    by (simp_all add: w initialProvider_def initialNavigationState_def)
  have na: "mode (navigationState (provider ?w)) \<noteq> active" and i: "0 < length (inflight ?w)"
    using m by simp_all
  note ended = ended_session_keeps_no_timer [of endedSession "''pk.token''" shortRoute]
  from ended na have p: "pendingTimer ?w = None" by blast
  from ended na i
  have r: "route (navigationState (provider (step (Response 0 (Resolved (Some shortRoute))) ?w))) =
       Some shortRoute"
    by blast
  from ended na i
  have "mode (navigationState (provider (step (Response 0 (Resolved (Some shortRoute))) ?w))) =
       mode (navigationState (provider ?w))"
    by blast
  with m(1)
  have "mode (navigationState (provider (step (Response 0 (Resolved (Some shortRoute))) ?w))) = idle"
    by (simp only:)
  with v e m p r show ?thesis by blast
qed

end
